theory Spec2Isabelle
  imports Main "HOL-Library.AList" "HOL-Library.Sublist" "HOL-Library.Word"
begin

unbundle bit_operations_syntax

section \<open>The upstream IR consumed by the legacy lowering\<close>

text \<open>
  Types of the \<^verbatim>\<open>graphql\<close> library are opaque to \<^verbatim>\<open>src/compiler/legacyIR.ts\<close>. An
  object type is read only through \<^verbatim>\<open>includes\<close> (object identity) and \<^verbatim>\<open>.name\<close>; within
  one schema a named type is one object, so an object type is modelled by its name.
\<close>

datatype GraphQLObjectType = GraphQLObjectType (name: string)

datatype GraphQLType =
    GraphQLNamedType string
  | GraphQLList GraphQLType
  | GraphQLNonNull GraphQLType

record Argument =
  arg_name :: string
  arg_value :: string

datatype FragmentSpread = FragmentSpread (fragmentName: string)

text \<open>
  Modelled from the spec: the selection nodes of \<^verbatim>\<open>src/compiler/index.ts\<close> (imported by
  legacyIR.ts, not under src/), with the properties that legacyIR.ts reads. A selection
  is tagged by its \<^verbatim>\<open>kind\<close>; a field has a selection set or none.
\<close>

datatype Field =
  Field (field_name: string) (field_alias: "string option") (field_args: "Argument list option")
        (field_type: GraphQLType) (isConditional: "bool option")
        (description: "string option") (isDeprecated: "bool option")
        (deprecationReason: "string option") (field_selectionSet: "SelectionSet option")
and Selection =
    Field_kind Field
  | FragmentSpread_kind FragmentSpread
  | TypeCondition_kind SelectionSet
  | BooleanCondition_kind SelectionSet
and SelectionSet =
  SelectionSet (possibleTypes: "GraphQLObjectType list") (selections: "Selection list")

text \<open>
  Modelled from the spec: the type-case partition of \<^verbatim>\<open>src/compiler/flattenIR.ts\<close> (class
  \<^verbatim>\<open>TypeCase\<close>, not under src/): a default record and the extra records, each with its
  possible types and its field map; \<^verbatim>\<open>fields\<close> lists the values of the field map and
  \<^verbatim>\<open>fieldMap.size\<close> counts its entries.
\<close>

datatype Record = Record (record_possibleTypes: "GraphQLObjectType list")
                         (fieldMap: "(string \<times> Field) list")

definition record_fields :: "Record \<Rightarrow> Field list" where
  "record_fields r = map snd (fieldMap r)"

definition fieldMap_size :: "Record \<Rightarrow> nat" where
  "fieldMap_size r = length (fieldMap r)"

datatype TypeCase = TypeCase (default_record: Record) (records: "Record list")

section \<open>The fragment-spread classifier\<close>

text \<open>
  \<^verbatim>\<open>possibleTypes.every(type => other.includes(type))\<close>
\<close>

definition every_included :: "GraphQLObjectType list \<Rightarrow> GraphQLObjectType list \<Rightarrow> bool" where
  "every_included types other = list_all (\<lambda>type. type \<in> set other) types"

text \<open>
  \<^verbatim>\<open>collectFragmentSpreads\<close> (legacyIR.ts 218-242). The context argument is never read
  and is left out; the parameter \<^verbatim>\<open>possibleTypes\<close> is \<open>types\<close> here. The \<^verbatim>\<open>for\<close> loop
  over the direct selections is \<open>collectSelections\<close>, with the array that \<^verbatim>\<open>push\<close>
  extends as accumulator; a \<^verbatim>\<open>Field\<close> selection matches no \<^verbatim>\<open>case\<close> of the switch.
\<close>

fun collectFragmentSpreads :: "SelectionSet \<Rightarrow> GraphQLObjectType list \<Rightarrow> FragmentSpread list"
and collectSelections ::
  "Selection list \<Rightarrow> GraphQLObjectType list \<Rightarrow> FragmentSpread list \<Rightarrow> FragmentSpread list"
where
  "collectFragmentSpreads (SelectionSet pts sels) types =
     collectSelections sels types []"
| "collectSelections [] types fragmentSpreads = fragmentSpreads"
| "collectSelections (selection # rest) types fragmentSpreads =
     collectSelections rest types
       (case selection of
          FragmentSpread_kind spread \<Rightarrow> fragmentSpreads @ [spread]
        | TypeCondition_kind sub \<Rightarrow>
            if every_included types (possibleTypes sub)
            then fragmentSpreads @ collectFragmentSpreads sub types
            else fragmentSpreads
        | BooleanCondition_kind sub \<Rightarrow>
            fragmentSpreads @ collectFragmentSpreads sub types
        | Field_kind field \<Rightarrow> fragmentSpreads)"

text \<open>
  What one direct selection yields at a target list of types, as the specification of the
  classifier states it.
\<close>

definition visible_at :: "GraphQLObjectType list \<Rightarrow> Selection \<Rightarrow> FragmentSpread list" where
  "visible_at types selection =
     (case selection of
        FragmentSpread_kind spread \<Rightarrow> [spread]
      | TypeCondition_kind sub \<Rightarrow>
          if set types \<subseteq> set (possibleTypes sub) then collectFragmentSpreads sub types else []
      | BooleanCondition_kind sub \<Rightarrow> collectFragmentSpreads sub types
      | Field_kind field \<Rightarrow> [])"

text \<open>
  Where the fragment spreads of a selection set stand: each occurrence of a spread that is
  nested in the selection set through type conditions and boolean conditions and through no
  field, from left to right, with the possible types of the type conditions it is nested
  in, outermost first. An occurrence is in view of a list of types when each of these
  type conditions has every type of the list among its possible types.
\<close>

fun spreadOccurrences ::
  "SelectionSet \<Rightarrow> (GraphQLObjectType list list \<times> FragmentSpread) list"
and occurrencesIn ::
  "Selection list \<Rightarrow> (GraphQLObjectType list list \<times> FragmentSpread) list"
where
  "spreadOccurrences (SelectionSet pts sels) = occurrencesIn sels"
| "occurrencesIn [] = []"
| "occurrencesIn (selection # rest) =
     (case selection of
        FragmentSpread_kind spread \<Rightarrow> [([], spread)]
      | TypeCondition_kind sub \<Rightarrow>
          map (\<lambda>occurrence. (possibleTypes sub # fst occurrence, snd occurrence))
            (spreadOccurrences sub)
      | BooleanCondition_kind sub \<Rightarrow> spreadOccurrences sub
      | Field_kind field \<Rightarrow> [])
     @ occurrencesIn rest"

definition in_view ::
  "GraphQLObjectType list \<Rightarrow> GraphQLObjectType list list \<times> FragmentSpread \<Rightarrow> bool"
where
  "in_view types occurrence =
     list_all (\<lambda>condition. set types \<subseteq> set condition) (fst occurrence)"

section \<open>The legacy IR\<close>

text \<open>
  The interfaces \<^verbatim>\<open>Field\<close> and \<^verbatim>\<open>CompiledInlineFragment\<close> of legacyIR.ts (65-84). An
  \<^verbatim>\<open>inlineFragments\<close> value is a JavaScript array that is also assigned to under
  string keys (186-188): its indexed elements are \<open>elems\<close>, its own named properties
  \<open>named\<close>, an association list read with \<^const>\<open>map_of\<close>, and its prototype
  \<open>prototype\<close>, where \<open>None\<close> stands for \<^verbatim>\<open>Array.prototype\<close>, the prototype an array is
  created with.
\<close>

datatype LegacyField =
  LegacyField (responseName: string) (fieldName: string) (legacy_type: GraphQLType)
              (legacy_args: "Argument list option") (legacy_isConditional: "bool option")
              (legacy_description: "string option") (legacy_isDeprecated: "bool option")
              (legacy_deprecationReason: "string option")
              (field_fields: "LegacyField list option")
              (field_fragmentSpreads: "string list option")
              (field_inlineFragments: "InlineFragmentArray option")
and CompiledInlineFragment =
  CompiledInlineFragment (typeCondition: GraphQLObjectType)
                         (inline_possibleTypes: "GraphQLObjectType list")
                         (inline_fields: "LegacyField list")
                         (inline_fragmentSpreads: "string list")
and InlineFragmentArray =
  InlineFragmentArray (elems: "CompiledInlineFragment list")
                      (named: "(string \<times> CompiledInlineFragment) list")
                      (prototype: "CompiledInlineFragment option")

text \<open>The object returned by \<^verbatim>\<open>transformSelectionSetToLegacyIR\<close> (194-198).\<close>

record LoweredSelectionSet =
  lowered_fields :: "LegacyField list"
  lowered_fragmentSpreads :: "string list"
  lowered_inlineFragments :: InlineFragmentArray

text \<open>
  What stops a run. \<open>TypeError p\<close> is the \<^verbatim>\<open>TypeError\<close> of reading the property \<open>p\<close> of
  \<^verbatim>\<open>undefined\<close>; \<open>RangeError\<close> is the \<^verbatim>\<open>RangeError\<close> of assigning an object to the
  \<^verbatim>\<open>length\<close> of an array; \<open>StackExhausted\<close> is the recursion outgrowing the depth it
  is given. The message of an error is worded by the engine that raises it and is not
  part of the model.
\<close>

datatype error = TypeError string | RangeError | StackExhausted

record CompilerOptions =
  addTypename :: "bool option"
  mergeInFieldsFromFragmentSpreads :: "bool option"
  passthroughCustomScalars :: "bool option"
  customScalarsPrefix :: "string option"
  namespace :: "string option"
  generateOperationIds :: "bool option"

record Variable =
  variable_name :: string
  variable_type :: GraphQLType

text \<open>
  Modelled from the spec: the operations and fragments of the upstream context of
  \<^verbatim>\<open>src/compiler/index.ts\<close> (not under src/), as legacyIR.ts destructures them (101, 132),
  and the upstream context itself (\<^verbatim>\<open>NewCompilationContext\<close>). An object keyed by name is
  an association list in the order \<^verbatim>\<open>Object.entries\<close> enumerates it, read with
  \<^const>\<open>map_of\<close>.
\<close>

record Operation =
  operation_filePath :: "string option"
  operation_operationName :: string
  operation_operationType :: string
  operation_rootType :: GraphQLObjectType
  operation_variables :: "Variable list"
  operation_source :: string
  operation_selectionSet :: SelectionSet

record Fragment =
  fragment_filePath :: "string option"
  fragment_fragmentName :: string
  fragment_source :: string
  fragment_type :: GraphQLType
  fragment_selectionSet :: SelectionSet

record 'schema NewCompilationContext =
  new_schema :: 'schema
  new_operations :: "(string \<times> Operation) list"
  new_fragments :: "(string \<times> Fragment) list"
  new_typesUsed :: "GraphQLType list"
  new_options :: CompilerOptions

text \<open>
  The imported functions and constructors that legacyIR.ts calls and that are not under
  src/: \<^verbatim>\<open>compileToIR\<close>, \<^verbatim>\<open>new TypeCase\<close>, \<^verbatim>\<open>mergeInFragmentSpreads\<close> and
  \<^verbatim>\<open>collectFragmentsReferenced\<close> (its set, as \<^verbatim>\<open>Array.from\<close> lists it). They are
  parameters of the model, and functions: a run in which one of them throws is not a run
  of the model, whose errors are those that legacyIR.ts itself runs into.
\<close>

record ('schema, 'document) Imports =
  compileToIR :: "'schema \<Rightarrow> 'document \<Rightarrow> CompilerOptions \<Rightarrow> 'schema NewCompilationContext"
  newTypeCase :: "SelectionSet \<Rightarrow> TypeCase"
  mergeInFragmentSpreads :: "'schema NewCompilationContext \<Rightarrow> SelectionSet \<Rightarrow> SelectionSet"
  collectFragmentsReferenced :: "'schema NewCompilationContext \<Rightarrow> SelectionSet \<Rightarrow> string list"

section \<open>Lowering selection sets and fields\<close>

text \<open>
  JavaScript truthiness of an optional boolean (\<^verbatim>\<open>undefined\<close> is falsy), and
  \<^verbatim>\<open>a || b\<close> on an optional string (\<^verbatim>\<open>undefined\<close> and the empty string are falsy).
\<close>

definition truthy :: "bool option \<Rightarrow> bool" where
  "truthy b = (b = Some True)"

definition or_else :: "string option \<Rightarrow> string \<Rightarrow> string" where
  "or_else a b = (case a of None \<Rightarrow> b | Some s \<Rightarrow> if s = [] then b else s)"

text \<open>
  The loop of legacyIR.ts 186-188: \<^verbatim>\<open>inlineFragments[inlineFragment.typeCondition.name] =
  inlineFragment\<close> for each element in array order, on the named properties and the
  prototype of the array. A type name is a GraphQL name, so it is never an array index.
  Of the names it can be, two are not assigned to as an ordinary property of an array.
  Under \<^verbatim>\<open>length\<close>, the array's own length, assigning an object raises \<^verbatim>\<open>RangeError\<close>.
  Under \<^verbatim>\<open>__proto__\<close> the assignment reaches the setter that \<^verbatim>\<open>Object.prototype\<close> holds
  (an array inherits it, and so does an array whose prototype is an inline fragment, an
  object literal): the object assigned becomes the prototype of the array, and the array
  gets no property. Under any other name the assignment creates or overwrites an own
  property, whatever the prototype holds, since nothing else on the chain is a setter or
  read-only.
\<close>

fun assignByTypeName ::
  "CompiledInlineFragment list \<Rightarrow> (string \<times> CompiledInlineFragment) list
     \<Rightarrow> CompiledInlineFragment option
     \<Rightarrow> error + (string \<times> CompiledInlineFragment) list \<times> CompiledInlineFragment option"
where
  "assignByTypeName [] props proto = Inr (props, proto)"
| "assignByTypeName (inlineFragment # rest) props proto =
     (if name (typeCondition inlineFragment) = ''length''
      then Inl RangeError
      else if name (typeCondition inlineFragment) = ''__proto__''
      then assignByTypeName rest props (Some inlineFragment)
      else assignByTypeName rest
             (AList.update (name (typeCondition inlineFragment)) inlineFragment props) proto)"

text \<open>
  The type case of a selection set (153-157), built from the selection set with the
  fragment spreads merged in when the option is set, and the filter of 162-168 on its
  records, which reads the possible types of the selection set as given.
\<close>

definition typeCaseOf ::
  "('schema, 'document) Imports \<Rightarrow> 'schema NewCompilationContext \<Rightarrow> SelectionSet \<Rightarrow> TypeCase"
where
  "typeCaseOf env context selectionSet =
     newTypeCase env
       (if truthy (mergeInFieldsFromFragmentSpreads (new_options context))
        then mergeInFragmentSpreads env context selectionSet
        else selectionSet)"

definition keepsRecord :: "SelectionSet \<Rightarrow> Record \<Rightarrow> bool" where
  "keepsRecord selectionSet record \<longleftrightarrow>
     \<not> every_included (possibleTypes selectionSet) (record_possibleTypes record)
     \<and> fieldMap_size record > 0"

text \<open>
  \<^verbatim>\<open>transformSelectionSetToLegacyIR\<close> (152-199) and \<^verbatim>\<open>transformFieldsToLegacyIR\<close>
  (201-216) call each other through the selection sets of the fields that the type case
  returns. The type case is an imported function, so nothing bounds the nesting: the
  model takes the depth the call stack allows, and a selection set lowered at depth 0 is
  \<open>StackExhausted\<close>. \<open>flatMapRecords\<close> is the \<^verbatim>\<open>flatMap\<close> callback of 169-184 over
  the records that pass the filter of 162-168.
\<close>

fun transformSelectionSetToLegacyIR ::
  "('schema, 'document) Imports \<Rightarrow> nat \<Rightarrow> 'schema NewCompilationContext \<Rightarrow> SelectionSet
     \<Rightarrow> error + LoweredSelectionSet"
and transformFieldsToLegacyIR ::
  "('schema, 'document) Imports \<Rightarrow> nat \<Rightarrow> 'schema NewCompilationContext \<Rightarrow> Field list
     \<Rightarrow> error + LegacyField list"
and flatMapRecords ::
  "('schema, 'document) Imports \<Rightarrow> nat \<Rightarrow> 'schema NewCompilationContext \<Rightarrow> SelectionSet
     \<Rightarrow> Record list \<Rightarrow> error + CompiledInlineFragment list"
where
  "transformSelectionSetToLegacyIR env 0 context selectionSet = Inl StackExhausted"
| "transformSelectionSetToLegacyIR env (Suc depth) context selectionSet =
     (let typeCase = typeCaseOf env context selectionSet
      in case transformFieldsToLegacyIR env depth context
                (record_fields (default_record typeCase)) of
           Inl e \<Rightarrow> Inl e
         | Inr fields' \<Rightarrow>
      (case flatMapRecords env depth context selectionSet
              (filter (keepsRecord selectionSet) (records typeCase)) of
           Inl e \<Rightarrow> Inl e
         | Inr inlineFragments \<Rightarrow>
      (case assignByTypeName inlineFragments [] None of
           Inl e \<Rightarrow> Inl e
         | Inr assigned \<Rightarrow>
             Inr \<lparr> lowered_fields = fields',
                   lowered_fragmentSpreads = map fragmentName
                     (collectFragmentSpreads selectionSet (possibleTypes selectionSet)),
                   lowered_inlineFragments =
                     InlineFragmentArray inlineFragments (fst assigned) (snd assigned) \<rparr>)))"
| "transformFieldsToLegacyIR env depth context [] = Inr []"
| "transformFieldsToLegacyIR env depth context (field # rest) =
     (case (case field_selectionSet field of
              None \<Rightarrow> Inr None
            | Some nested \<Rightarrow>
                (case transformSelectionSetToLegacyIR env depth context nested of
                   Inl e \<Rightarrow> Inl e
                 | Inr lowered \<Rightarrow> Inr (Some lowered))) of
        Inl e \<Rightarrow> Inl e
      | Inr lowered \<Rightarrow>
     (case transformFieldsToLegacyIR env depth context rest of
        Inl e \<Rightarrow> Inl e
      | Inr others \<Rightarrow>
          Inr (LegacyField (or_else (field_alias field) (field_name field)) (field_name field)
                 (field_type field) (field_args field) (isConditional field)
                 (description field) (isDeprecated field) (deprecationReason field)
                 (map_option lowered_fields lowered)
                 (map_option lowered_fragmentSpreads lowered)
                 (map_option lowered_inlineFragments lowered)
               # others)))"
| "flatMapRecords env depth context selectionSet [] = Inr []"
| "flatMapRecords env depth context selectionSet (record # rest) =
     (case transformFieldsToLegacyIR env depth context (record_fields record) of
        Inl e \<Rightarrow> Inl e
      | Inr fields' \<Rightarrow>
     (let fragmentSpreads = map fragmentName
            (collectFragmentSpreads selectionSet (record_possibleTypes record))
      in case flatMapRecords env depth context selectionSet rest of
        Inl e \<Rightarrow> Inl e
      | Inr others \<Rightarrow>
          Inr (map (\<lambda>possibleType.
                 CompiledInlineFragment possibleType [possibleType] fields' fragmentSpreads)
                 (record_possibleTypes record) @ others)))"

text \<open>
  When the lowering returns: the nesting of the selection sets of the fields that the type
  case returns, for the default record and the records that pass the filter, is within
  the depth, and no record that passes the filter has a possible type named
  \<^verbatim>\<open>length\<close> (lemma \<open>lowering_returns_iff\<close> below).
\<close>

primrec well_nested ::
  "('schema, 'document) Imports \<Rightarrow> nat \<Rightarrow> 'schema NewCompilationContext \<Rightarrow> SelectionSet \<Rightarrow> bool"
where
  "well_nested env 0 ctx selectionSet = False"
| "well_nested env (Suc depth) ctx selectionSet =
     (list_all
        (\<lambda>record. list_all
           (\<lambda>field. case field_selectionSet field of
                       None \<Rightarrow> True
                     | Some nested \<Rightarrow> well_nested env depth ctx nested)
           (record_fields record))
        (default_record (typeCaseOf env ctx selectionSet)
         # filter (keepsRecord selectionSet) (records (typeCaseOf env ctx selectionSet)))
      \<and> list_all
          (\<lambda>record. list_all (\<lambda>type. name type \<noteq> ''length'') (record_possibleTypes record))
          (filter (keepsRecord selectionSet) (records (typeCaseOf env ctx selectionSet))))"

section \<open>The operation identifier\<close>

text \<open>
  \<^verbatim>\<open>createHash('sha256')\<close>, \<^verbatim>\<open>update\<close> and \<^verbatim>\<open>digest('hex')\<close> (111-113) belong to the
  \<^verbatim>\<open>crypto\<close> module of the runtime, not to the repository. The model is SHA-256 as FIPS
  180-4 defines it, over the bytes of the text, with the digest written as lowercase
  hexadecimal. A \<^typ>\<open>string\<close> is the list of the UTF-8 bytes of the text; the constants
  are the first 32 bits of the fractional parts of the cube roots (\<open>K256\<close>) and square
  roots (\<open>H256\<close>) of the first primes.
\<close>

type_synonym u32 = "32 word"

definition K256 :: "u32 list" where
  "K256 = map word_of_nat
    [1116352408, 1899447441, 3049323471, 3921009573, 961987163, 1508970993,
     2453635748, 2870763221, 3624381080, 310598401, 607225278, 1426881987,
     1925078388, 2162078206, 2614888103, 3248222580, 3835390401, 4022224774,
     264347078, 604807628, 770255983, 1249150122, 1555081692, 1996064986,
     2554220882, 2821834349, 2952996808, 3210313671, 3336571891, 3584528711,
     113926993, 338241895, 666307205, 773529912, 1294757372, 1396182291,
     1695183700, 1986661051, 2177026350, 2456956037, 2730485921, 2820302411,
     3259730800, 3345764771, 3516065817, 3600352804, 4094571909, 275423344,
     430227734, 506948616, 659060556, 883997877, 958139571, 1322822218,
     1537002063, 1747873779, 1955562222, 2024104815, 2227730452, 2361852424,
     2428436474, 2756734187, 3204031479, 3329325298]"

type_synonym sha_state = "u32 \<times> u32 \<times> u32 \<times> u32 \<times> u32 \<times> u32 \<times> u32 \<times> u32"

definition H256 :: sha_state where
  "H256 = (1779033703, 3144134277, 1013904242, 2773480762,
           1359893119, 2600822924, 528734635, 1541459225)"

definition Ch :: "u32 \<Rightarrow> u32 \<Rightarrow> u32 \<Rightarrow> u32" where
  "Ch x y z = (x AND y) XOR (NOT x AND z)"

definition Maj :: "u32 \<Rightarrow> u32 \<Rightarrow> u32 \<Rightarrow> u32" where
  "Maj x y z = (x AND y) XOR (x AND z) XOR (y AND z)"

definition Sigma0 :: "u32 \<Rightarrow> u32" where
  "Sigma0 x = word_rotr 2 x XOR word_rotr 13 x XOR word_rotr 22 x"

definition Sigma1 :: "u32 \<Rightarrow> u32" where
  "Sigma1 x = word_rotr 6 x XOR word_rotr 11 x XOR word_rotr 25 x"

definition sigma0 :: "u32 \<Rightarrow> u32" where
  "sigma0 x = word_rotr 7 x XOR word_rotr 18 x XOR drop_bit 3 x"

definition sigma1 :: "u32 \<Rightarrow> u32" where
  "sigma1 x = word_rotr 17 x XOR word_rotr 19 x XOR drop_bit 10 x"

definition be64 :: "nat \<Rightarrow> nat list" where
  "be64 n = map (\<lambda>i. (n div 256 ^ (7 - i)) mod 256) [0..<8]"

definition pad :: "nat list \<Rightarrow> nat list" where
  "pad bytes = bytes @ [128] @ replicate ((64 - (length bytes + 9) mod 64) mod 64) 0
                 @ be64 (8 * length bytes)"

fun be_words :: "nat list \<Rightarrow> u32 list" where
  "be_words (a # b # c # d # rest) =
     word_of_nat (((a * 256 + b) * 256 + c) * 256 + d) # be_words rest"
| "be_words _ = []"

fun schedule :: "nat \<Rightarrow> u32 list \<Rightarrow> u32 list" where
  "schedule 0 w = w"
| "schedule (Suc n) w =
     (let t = length w
      in schedule n (w @ [sigma1 (w ! (t - 2)) + w ! (t - 7) + sigma0 (w ! (t - 15)) + w ! (t - 16)]))"

fun round256 :: "sha_state \<Rightarrow> u32 \<times> u32 \<Rightarrow> sha_state" where
  "round256 (a, b, c, d, e, f, g, h) (k, w) =
     (let t1 = h + Sigma1 e + Ch e f g + k + w;
          t2 = Sigma0 a + Maj a b c
      in (t1 + t2, a, b, c, d + t1, e, f, g))"

fun add_state :: "sha_state \<Rightarrow> sha_state \<Rightarrow> sha_state" where
  "add_state (a, b, c, d, e, f, g, h) (a', b', c', d', e', f', g', h') =
     (a + a', b + b', c + c', d + d', e + e', f + f', g + g', h + h')"

definition compress :: "sha_state \<Rightarrow> u32 list \<Rightarrow> sha_state" where
  "compress st block = add_state st (foldl round256 st (zip K256 (schedule 48 block)))"

fun blocks :: "nat \<Rightarrow> u32 list \<Rightarrow> u32 list list" where
  "blocks 0 ws = []"
| "blocks (Suc n) ws = take 16 ws # blocks n (drop 16 ws)"

definition sha256 :: "nat list \<Rightarrow> sha_state" where
  "sha256 bytes =
     (let ws = be_words (pad bytes)
      in foldl compress H256 (blocks (length ws div 16) ws))"

definition hex_digit :: "nat \<Rightarrow> char" where
  "hex_digit n = ''0123456789abcdef'' ! (n mod 16)"

definition hex32 :: "u32 \<Rightarrow> string" where
  "hex32 w = map (\<lambda>i. hex_digit (unat (drop_bit (4 * (7 - i)) w))) [0..<8]"

fun hex_state :: "sha_state \<Rightarrow> string" where
  "hex_state (a, b, c, d, e, f, g, h) =
     hex32 a @ hex32 b @ hex32 c @ hex32 d @ hex32 e @ hex32 f @ hex32 g @ hex32 h"

definition sha256_hex :: "string \<Rightarrow> string" where
  "sha256_hex s = hex_state (sha256 (map of_char s))"

section \<open>The assembler\<close>

record CompiledOperation =
  filePath :: "string option"
  operationName :: string
  operationId :: "string option"
  operationType :: string
  rootType :: GraphQLObjectType
  variables :: "Variable list"
  source :: string
  sourceWithFragments :: "string option"
  compiled_fields :: "LegacyField list"
  compiled_fragmentSpreads :: "string list option"
  compiled_inlineFragments :: "InlineFragmentArray option"
  fragmentsReferenced :: "string list"

record CompiledFragment =
  cf_filePath :: "string option"
  cf_fragmentName :: string
  cf_source :: string
  cf_typeCondition :: GraphQLType
  cf_possibleTypes :: "GraphQLObjectType list"
  cf_fields :: "LegacyField list"
  cf_fragmentSpreads :: "string list"
  cf_inlineFragments :: InlineFragmentArray

record 'schema CompilationContext =
  schema :: 'schema
  operations :: "(string \<times> CompiledOperation) list"
  fragments :: "(string \<times> CompiledFragment) list"
  typesUsed :: "GraphQLType list"
  options :: CompilerOptions

text \<open>\<^verbatim>\<open>Array.prototype.join\<close> on an array of strings.\<close>

fun join :: "string \<Rightarrow> string list \<Rightarrow> string" where
  "join separator [] = []"
| "join separator [piece] = piece"
| "join separator (piece # next # rest) = piece @ separator @ join separator (next # rest)"

definition newline :: string where
  "newline = [CHR 0x0A]"

text \<open>
  \<^verbatim>\<open>fragmentsReferenced.map(fragmentName => context.fragments[fragmentName].source)\<close>
  (106-108): a name that \<^verbatim>\<open>context.fragments\<close> does not hold reads as \<^verbatim>\<open>undefined\<close>, and
  reading \<^verbatim>\<open>source\<close> of it throws.
\<close>

fun fragmentSources :: "(string \<times> Fragment) list \<Rightarrow> string list \<Rightarrow> error + string list" where
  "fragmentSources frags [] = Inr []"
| "fragmentSources frags (name' # rest) =
     (case map_of frags name' of
        None \<Rightarrow> Inl (TypeError ''source'')
      | Some fragment \<Rightarrow>
          (case fragmentSources frags rest of
             Inl e \<Rightarrow> Inl e
           | Inr sources \<Rightarrow> Inr (fragment_source fragment # sources)))"

text \<open>The body of the loop over the operations (101-126).\<close>

definition compileOperation ::
  "('schema, 'document) Imports \<Rightarrow> nat \<Rightarrow> 'schema NewCompilationContext
     \<Rightarrow> string \<Rightarrow> Operation \<Rightarrow> error + CompiledOperation"
where
  "compileOperation env depth context name' operation =
     (let referenced = collectFragmentsReferenced env context (operation_selectionSet operation)
      in case fragmentSources (new_fragments context) referenced of
           Inl e \<Rightarrow> Inl e
         | Inr sources \<Rightarrow>
      (let text' = join newline (operation_source operation # sources);
           hash = sha256_hex text'
       in case transformSelectionSetToLegacyIR env depth context
                 (operation_selectionSet operation) of
            Inl e \<Rightarrow> Inl e
          | Inr lowered \<Rightarrow>
              Inr \<lparr> filePath = operation_filePath operation,
                    operationName = name',
                    operationId = Some hash,
                    operationType = operation_operationType operation,
                    rootType = operation_rootType operation,
                    variables = operation_variables operation,
                    source = operation_source operation,
                    sourceWithFragments = Some text',
                    compiled_fields = lowered_fields lowered,
                    compiled_fragmentSpreads = Some (lowered_fragmentSpreads lowered),
                    compiled_inlineFragments = Some (lowered_inlineFragments lowered),
                    fragmentsReferenced = referenced \<rparr>))"

text \<open>The body of the loop over the fragments (132-138).\<close>

definition compileFragment ::
  "('schema, 'document) Imports \<Rightarrow> nat \<Rightarrow> 'schema NewCompilationContext
     \<Rightarrow> Fragment \<Rightarrow> error + CompiledFragment"
where
  "compileFragment env depth context fragment =
     (case transformSelectionSetToLegacyIR env depth context
             (fragment_selectionSet fragment) of
        Inl e \<Rightarrow> Inl e
      | Inr lowered \<Rightarrow>
          Inr \<lparr> cf_filePath = fragment_filePath fragment,
                cf_fragmentName = fragment_fragmentName fragment,
                cf_source = fragment_source fragment,
                cf_typeCondition = fragment_type fragment,
                cf_possibleTypes = possibleTypes (fragment_selectionSet fragment),
                cf_fields = lowered_fields lowered,
                cf_fragmentSpreads = lowered_fragmentSpreads lowered,
                cf_inlineFragments = lowered_inlineFragments lowered \<rparr>)"

text \<open>
  The two \<^verbatim>\<open>for ... of Object.entries(...)\<close> loops (100-127, 131-139): each entry is
  compiled in turn and assigned under its key into the object built so far; the first
  failure ends the run.
\<close>

fun compileOperations ::
  "('schema, 'document) Imports \<Rightarrow> nat \<Rightarrow> 'schema NewCompilationContext
     \<Rightarrow> (string \<times> Operation) list \<Rightarrow> (string \<times> CompiledOperation) list
     \<Rightarrow> error + (string \<times> CompiledOperation) list"
where
  "compileOperations env depth context [] compiled = Inr compiled"
| "compileOperations env depth context ((name', operation) # rest) compiled =
     (case compileOperation env depth context name' operation of
        Inl e \<Rightarrow> Inl e
      | Inr operation' \<Rightarrow>
          compileOperations env depth context rest (AList.update name' operation' compiled))"

fun compileFragments ::
  "('schema, 'document) Imports \<Rightarrow> nat \<Rightarrow> 'schema NewCompilationContext
     \<Rightarrow> (string \<times> Fragment) list \<Rightarrow> (string \<times> CompiledFragment) list
     \<Rightarrow> error + (string \<times> CompiledFragment) list"
where
  "compileFragments env depth context [] compiled = Inr compiled"
| "compileFragments env depth context ((name', fragment) # rest) compiled =
     (case compileFragment env depth context fragment of
        Inl e \<Rightarrow> Inl e
      | Inr fragment' \<Rightarrow>
          compileFragments env depth context rest (AList.update name' fragment' compiled))"

text \<open>
  The default value of the parameter \<^verbatim>\<open>options\<close> (94), which stands for an omitted
  argument.
\<close>

definition default_options :: CompilerOptions where
  "default_options =
     \<lparr> addTypename = None, mergeInFieldsFromFragmentSpreads = Some True,
       passthroughCustomScalars = None, customScalarsPrefix = None, namespace = None,
       generateOperationIds = None \<rparr>"

definition effective_options :: "CompilerOptions option \<Rightarrow> CompilerOptions" where
  "effective_options options' =
     (case options' of None \<Rightarrow> default_options | Some given \<Rightarrow> given)"

text \<open>
  \<^verbatim>\<open>compileToLegacyIR\<close> (91-150). An omitted \<^verbatim>\<open>options\<close> argument is \<open>None\<close>; \<open>depth\<close> is
  the nesting that the call stack allows each lowering.
\<close>

definition compileToLegacyIR ::
  "('schema, 'document) Imports \<Rightarrow> nat \<Rightarrow> 'schema \<Rightarrow> 'document \<Rightarrow> CompilerOptions option
     \<Rightarrow> error + 'schema CompilationContext"
where
  "compileToLegacyIR env depth schema' document options' =
     (let opts = effective_options options';
          context = compileToIR env schema' document opts
      in case compileOperations env depth context (new_operations context) [] of
           Inl e \<Rightarrow> Inl e
         | Inr operations' \<Rightarrow>
      (case compileFragments env depth context (new_fragments context) [] of
           Inl e \<Rightarrow> Inl e
         | Inr fragments' \<Rightarrow>
             Inr \<lparr> schema = new_schema context,
                   operations = operations',
                   fragments = fragments',
                   typesUsed = new_typesUsed context,
                   options = opts \<rparr>))"

text \<open>
  When a run returns a context (lemma \<open>compilable_iff\<close> below): the upstream context
  defines every fragment name of the closure of every operation, and the selection sets of
  the operations and of the fragments are lowered within the depth.
\<close>

definition compilable ::
  "('schema, 'document) Imports \<Rightarrow> nat \<Rightarrow> 'schema \<Rightarrow> 'document \<Rightarrow> CompilerOptions option \<Rightarrow> bool"
where
  "compilable env depth schema' document options' =
     (let ctx = compileToIR env schema' document (effective_options options')
      in list_all (\<lambda>(name', operation).
             list_all (\<lambda>referenced. map_of (new_fragments ctx) referenced \<noteq> None)
               (collectFragmentsReferenced env ctx (operation_selectionSet operation))
             \<and> well_nested env depth ctx (operation_selectionSet operation))
           (new_operations ctx)
         \<and> list_all (\<lambda>(name', fragment). well_nested env depth ctx (fragment_selectionSet fragment))
             (new_fragments ctx))"

section \<open>A worked document\<close>

text \<open>
  The document of the specification's end-to-end scenario, with a field beside the spread
  under \<^verbatim>\<open>... on Cat\<close>:
  \<^verbatim>\<open>query GetPet { pet { name ... on Dog { barkVolume } ... on Cat { lives ...CatFields } } }\<close>
  and \<^verbatim>\<open>fragment CatFields on Cat { lives }\<close>, where \<^verbatim>\<open>pet\<close> is a \<^verbatim>\<open>Dog\<close> or a \<^verbatim>\<open>Cat\<close>.
\<close>

definition Dog :: GraphQLObjectType where "Dog = GraphQLObjectType ''Dog''"

definition Cat :: GraphQLObjectType where "Cat = GraphQLObjectType ''Cat''"

definition Query :: GraphQLObjectType where "Query = GraphQLObjectType ''Query''"

definition leaf :: "string \<Rightarrow> Field" where
  "leaf n = Field n None None (GraphQLNamedType ''String'') None None None None None"

definition dog_condition :: SelectionSet where
  "dog_condition = SelectionSet [Dog] [Field_kind (leaf ''barkVolume'')]"

definition cat_condition :: SelectionSet where
  "cat_condition =
     SelectionSet [Cat]
       [Field_kind (leaf ''lives''), FragmentSpread_kind (FragmentSpread ''CatFields'')]"

definition pet_selectionSet :: SelectionSet where
  "pet_selectionSet =
     SelectionSet [Dog, Cat]
       [Field_kind (leaf ''name''), TypeCondition_kind dog_condition,
        TypeCondition_kind cat_condition]"

definition pet_field :: Field where
  "pet_field =
     Field ''pet'' None None (GraphQLNamedType ''Pet'') None None None None
       (Some pet_selectionSet)"

definition query_selectionSet :: SelectionSet where
  "query_selectionSet = SelectionSet [Query] [Field_kind pet_field]"

definition GetPet_source :: string where
  "GetPet_source =
     ''query GetPet { pet { name ... on Dog { barkVolume } ... on Cat { lives ...CatFields } } }''"

definition GetPet :: Operation where
  "GetPet =
     \<lparr> operation_filePath = None, operation_operationName = ''GetPet'',
       operation_operationType = ''query'', operation_rootType = Query,
       operation_variables = [], operation_source = GetPet_source,
       operation_selectionSet = query_selectionSet \<rparr>"

definition CatFields :: Fragment where
  "CatFields =
     \<lparr> fragment_filePath = None, fragment_fragmentName = ''CatFields'',
       fragment_source = ''fragment CatFields on Cat { lives }'',
       fragment_type = GraphQLNamedType ''Cat'',
       fragment_selectionSet = SelectionSet [Cat] [Field_kind (leaf ''lives'')] \<rparr>"

text \<open>
  Stand-ins for the imported functions on this document: a type case with the direct
  fields as default record and one extra record for each direct type condition, no
  merging, and the closure of the query.
\<close>

fun direct_fields :: "Selection list \<Rightarrow> (string \<times> Field) list" where
  "direct_fields [] = []"
| "direct_fields (Field_kind field # rest) = (field_name field, field) # direct_fields rest"
| "direct_fields (other # rest) = direct_fields rest"

fun condition_records :: "Selection list \<Rightarrow> Record list" where
  "condition_records [] = []"
| "condition_records (TypeCondition_kind sub # rest) =
     Record (possibleTypes sub) (direct_fields (selections sub)) # condition_records rest"
| "condition_records (other # rest) = condition_records rest"

definition direct_typeCase :: "SelectionSet \<Rightarrow> TypeCase" where
  "direct_typeCase selectionSet =
     TypeCase (Record (possibleTypes selectionSet) (direct_fields (selections selectionSet)))
              (condition_records (selections selectionSet))"

definition pet_context :: "(string \<times> Fragment) list \<Rightarrow> CompilerOptions \<Rightarrow> unit NewCompilationContext"
where
  "pet_context frags opts =
     \<lparr> new_schema = (), new_operations = [(''GetPet'', GetPet)], new_fragments = frags,
       new_typesUsed = [], new_options = opts \<rparr>"

definition pet_imports :: "(string \<times> Fragment) list \<Rightarrow> (unit, unit) Imports" where
  "pet_imports frags =
     \<lparr> compileToIR = (\<lambda>schema' document opts. pet_context frags opts),
       newTypeCase = direct_typeCase,
       mergeInFragmentSpreads = (\<lambda>context selectionSet. selectionSet),
       collectFragmentsReferenced =
         (\<lambda>context selectionSet. if selectionSet = query_selectionSet then [''CatFields''] else []) \<rparr>"

text \<open>What the document is lowered and compiled to.\<close>

definition lowered_leaf :: "string \<Rightarrow> LegacyField" where
  "lowered_leaf n =
     LegacyField n n (GraphQLNamedType ''String'') None None None None None None None None"

definition dog_fragment :: CompiledInlineFragment where
  "dog_fragment = CompiledInlineFragment Dog [Dog] [lowered_leaf ''barkVolume''] []"

definition cat_fragment :: CompiledInlineFragment where
  "cat_fragment = CompiledInlineFragment Cat [Cat] [lowered_leaf ''lives''] [''CatFields'']"

definition pet_lowered :: LoweredSelectionSet where
  "pet_lowered =
     \<lparr> lowered_fields = [lowered_leaf ''name''],
       lowered_fragmentSpreads = [],
       lowered_inlineFragments =
         InlineFragmentArray [dog_fragment, cat_fragment]
           [(''Dog'', dog_fragment), (''Cat'', cat_fragment)] None \<rparr>"

definition query_lowered :: LoweredSelectionSet where
  "query_lowered =
     \<lparr> lowered_fields =
         [LegacyField ''pet'' ''pet'' (GraphQLNamedType ''Pet'') None None None None None
            (Some (lowered_fields pet_lowered)) (Some (lowered_fragmentSpreads pet_lowered))
            (Some (lowered_inlineFragments pet_lowered))],
       lowered_fragmentSpreads = [],
       lowered_inlineFragments = InlineFragmentArray [] [] None \<rparr>"

definition GetPet_text :: string where
  "GetPet_text =
     GetPet_source @ newline @ ''fragment CatFields on Cat { lives }''"

definition GetPet_compiled :: CompiledOperation where
  "GetPet_compiled =
     \<lparr> filePath = None, operationName = ''GetPet'',
       operationId = Some (sha256_hex GetPet_text),
       operationType = ''query'', rootType = Query, variables = [],
       source = GetPet_source,
       sourceWithFragments = Some GetPet_text,
       compiled_fields = lowered_fields query_lowered,
       compiled_fragmentSpreads = Some [],
       compiled_inlineFragments = Some (InlineFragmentArray [] [] None),
       fragmentsReferenced = [''CatFields''] \<rparr>"

definition CatFields_compiled :: CompiledFragment where
  "CatFields_compiled =
     \<lparr> cf_filePath = None, cf_fragmentName = ''CatFields'',
       cf_source = ''fragment CatFields on Cat { lives }'',
       cf_typeCondition = GraphQLNamedType ''Cat'', cf_possibleTypes = [Cat],
       cf_fields = [lowered_leaf ''lives''], cf_fragmentSpreads = [],
       cf_inlineFragments = InlineFragmentArray [] [] None \<rparr>"

definition pet_legacy :: "CompilerOptions \<Rightarrow> unit CompilationContext" where
  "pet_legacy opts =
     \<lparr> schema = (), operations = [(''GetPet'', GetPet_compiled)],
       fragments = [(''CatFields'', CatFields_compiled)], typesUsed = [], options = opts \<rparr>"

text \<open>Options with \<^verbatim>\<open>generateOperationIds: false\<close>.\<close>

definition off_options :: CompilerOptions where
  "off_options = default_options \<lparr> generateOperationIds := Some False \<rparr>"

subsection \<open>Further selection sets\<close>

text \<open>
  A selection set that spreads \<^verbatim>\<open>CatFields\<close> both directly and under \<^verbatim>\<open>... on Cat\<close>.
\<close>

definition twice_selectionSet :: SelectionSet where
  "twice_selectionSet =
     SelectionSet [Dog, Cat]
       [FragmentSpread_kind (FragmentSpread ''CatFields''), TypeCondition_kind cat_condition]"

text \<open>
  A selection set on a \<^verbatim>\<open>Dog\<close>, a \<^verbatim>\<open>Cat\<close> or a \<^verbatim>\<open>Bird\<close>, with a spread under a directive
  inside a type condition on two of the three types, and a type condition that selects no
  field:
  \<^verbatim>\<open>{ name ... on Walker { legs ...LegFields @include(if: $detailed) } ... on Bird { ...BirdFields } }\<close>
  where a \<^verbatim>\<open>Walker\<close> is a \<^verbatim>\<open>Dog\<close> or a \<^verbatim>\<open>Cat\<close>; and what it is lowered to.
\<close>

definition Bird :: GraphQLObjectType where "Bird = GraphQLObjectType ''Bird''"

definition walker_condition :: SelectionSet where
  "walker_condition =
     SelectionSet [Dog, Cat]
       [Field_kind (leaf ''legs''),
        BooleanCondition_kind
          (SelectionSet [Dog, Cat] [FragmentSpread_kind (FragmentSpread ''LegFields'')])]"

definition bird_condition :: SelectionSet where
  "bird_condition = SelectionSet [Bird] [FragmentSpread_kind (FragmentSpread ''BirdFields'')]"

definition animal_selectionSet :: SelectionSet where
  "animal_selectionSet =
     SelectionSet [Dog, Cat, Bird]
       [Field_kind (leaf ''name''), TypeCondition_kind walker_condition,
        TypeCondition_kind bird_condition]"

definition walker_fragment :: "GraphQLObjectType \<Rightarrow> CompiledInlineFragment" where
  "walker_fragment type =
     CompiledInlineFragment type [type] [lowered_leaf ''legs''] [''LegFields'']"

definition animal_lowered :: LoweredSelectionSet where
  "animal_lowered =
     \<lparr> lowered_fields = [lowered_leaf ''name''],
       lowered_fragmentSpreads = [],
       lowered_inlineFragments =
         InlineFragmentArray [walker_fragment Dog, walker_fragment Cat]
           [(''Dog'', walker_fragment Dog), (''Cat'', walker_fragment Cat)] None \<rparr>"

text \<open>
  Two selection sets on a union of \<^verbatim>\<open>Dog\<close> and an object type whose name is \<^verbatim>\<open>length\<close>, and
  of \<^verbatim>\<open>Dog\<close> and an object type whose name is \<^verbatim>\<open>__proto__\<close>:
  \<^verbatim>\<open>{ name ... on length { lives } }\<close> and \<^verbatim>\<open>{ name ... on __proto__ { lives } }\<close>, with the
  extra record and the inline fragment of these types.
\<close>

definition length_type :: GraphQLObjectType where "length_type = GraphQLObjectType ''length''"

definition length_selectionSet :: SelectionSet where
  "length_selectionSet =
     SelectionSet [length_type, Dog]
       [Field_kind (leaf ''name''),
        TypeCondition_kind (SelectionSet [length_type] [Field_kind (leaf ''lives'')])]"

definition length_record :: Record where
  "length_record = Record [length_type] [(''lives'', leaf ''lives'')]"

definition length_fragment :: CompiledInlineFragment where
  "length_fragment =
     CompiledInlineFragment length_type [length_type] [lowered_leaf ''lives''] []"





section \<open>Properties of the classifier\<close>

lemma every_included_iff: "every_included types other \<longleftrightarrow> set types \<subseteq> set other"
  by (auto simp: every_included_def list_all_iff)

lemma collectSelections_acc:
  "collectSelections sels types acc = acc @ concat (map (visible_at types) sels)"
  by (induction sels arbitrary: acc)
     (auto simp: visible_at_def every_included_iff split: Selection.splits)

lemma collectFragmentSpreads_visible:
  "collectFragmentSpreads selectionSet types =
     concat (map (visible_at types) (selections selectionSet))"
  by (cases selectionSet) (simp add: collectSelections_acc)

lemma direct_spread_collected:
  "FragmentSpread_kind spread \<in> set (selections selectionSet) \<Longrightarrow>
   spread \<in> set (collectFragmentSpreads selectionSet types)"
  by (force simp: collectFragmentSpreads_visible visible_at_def)

lemma in_view_Nil: "in_view types ([], spread)"
  by (simp add: in_view_def)

lemma in_view_Cons:
  "in_view types (condition # conditions, spread) \<longleftrightarrow>
     set types \<subseteq> set condition \<and> in_view types (conditions, spread)"
  by (simp add: in_view_def)

lemma in_view_nested:
  "filter (in_view types) (map (\<lambda>occurrence. (condition # fst occurrence, snd occurrence)) occs) =
     (if set types \<subseteq> set condition
      then map (\<lambda>occurrence. (condition # fst occurrence, snd occurrence))
             (filter (in_view types) occs)
      else [])"
  by (induction occs) (simp_all add: in_view_Cons)

lemma collect_occurrences:
  "collectFragmentSpreads selectionSet types =
     map snd (filter (in_view types) (spreadOccurrences selectionSet))"
  "\<forall>acc. collectSelections sels types acc =
     acc @ map snd (filter (in_view types) (occurrencesIn sels))"
proof (induction selectionSet and sels rule: spreadOccurrences_occurrencesIn.induct)
  case (1 pts sels)
  then show ?case by simp
next
  case 2
  show ?case by simp
next
  case (3 selection rest)
  show ?case
  proof (cases selection)
    case (Field_kind field)
    with 3 show ?thesis by simp
  next
    case (FragmentSpread_kind spread)
    with 3 show ?thesis by (simp add: in_view_Nil)
  next
    case (TypeCondition_kind sub)
    with 3 show ?thesis
      by (simp add: in_view_nested every_included_iff comp_def)
  next
    case (BooleanCondition_kind sub)
    with 3 show ?thesis by simp
  qed
qed

lemma in_view_within:
  "in_view types (conditions, spread) \<Longrightarrow> condition \<in> set conditions \<Longrightarrow>
   set types \<subseteq> set condition"
  by (simp add: in_view_def list_all_iff)

section \<open>Properties of the lowering\<close>

lemma assignByTypeName_map_of:
  "assignByTypeName frags props proto = Inr assigned \<Longrightarrow>
   map_of (fst assigned) k =
     (if k = ''__proto__'' then map_of props k
      else case filter (\<lambda>g. name (typeCondition g) = k) frags of
             [] \<Rightarrow> map_of props k
           | f # fs \<Rightarrow> Some (last (f # fs)))"
proof (induction frags arbitrary: props proto)
  case Nil
  then show ?case by auto
next
  case (Cons g rest)
  from Cons.prems have notlen: "name (typeCondition g) \<noteq> ''length''"
    by (auto split: if_splits)
  show ?case
  proof (cases "name (typeCondition g) = ''__proto__''")
    case True
    with Cons.prems have "assignByTypeName rest props (Some g) = Inr assigned"
      by simp
    from Cons.IH [OF this] True show ?thesis
      by auto
  next
    case False
    with notlen Cons.prems have
      "assignByTypeName rest (AList.update (name (typeCondition g)) g props) proto = Inr assigned"
      by simp
    from Cons.IH [OF this] False show ?thesis
      by (auto simp: update_conv' split: list.splits)
  qed
qed

lemma assignByTypeName_keys:
  "assignByTypeName frags props proto = Inr assigned \<Longrightarrow>
   fst ` set (fst assigned) =
     fst ` set props \<union> ((\<lambda>g. name (typeCondition g)) ` set frags - {''__proto__''})"
proof (induction frags arbitrary: props proto)
  case Nil
  then show ?case by auto
next
  case (Cons g rest)
  from Cons.prems have notlen: "name (typeCondition g) \<noteq> ''length''"
    by (auto split: if_splits)
  show ?case
  proof (cases "name (typeCondition g) = ''__proto__''")
    case True
    with Cons.prems have "assignByTypeName rest props (Some g) = Inr assigned"
      by simp
    from Cons.IH [OF this] True show ?thesis
      by auto
  next
    case False
    with notlen Cons.prems have
      "assignByTypeName rest (AList.update (name (typeCondition g)) g props) proto = Inr assigned"
      by simp
    from Cons.IH [OF this] False show ?thesis
      by (auto simp: dom_update)
  qed
qed

lemma assignByTypeName_prototype:
  "assignByTypeName frags props proto = Inr assigned \<Longrightarrow>
   snd assigned =
     (case filter (\<lambda>g. name (typeCondition g) = ''__proto__'') frags of
        [] \<Rightarrow> proto
      | f # fs \<Rightarrow> Some (last (f # fs)))"
proof (induction frags arbitrary: props proto)
  case Nil
  then show ?case by auto
next
  case (Cons g rest)
  from Cons.prems have notlen: "name (typeCondition g) \<noteq> ''length''"
    by (auto split: if_splits)
  show ?case
  proof (cases "name (typeCondition g) = ''__proto__''")
    case True
    with Cons.prems have "assignByTypeName rest props (Some g) = Inr assigned"
      by simp
    from Cons.IH [OF this] True show ?thesis
      by (auto split: list.splits)
  next
    case False
    with notlen Cons.prems have
      "assignByTypeName rest (AList.update (name (typeCondition g)) g props) proto = Inr assigned"
      by simp
    from Cons.IH [OF this] False show ?thesis
      by simp
  qed
qed

lemma assignByTypeName_error:
  "assignByTypeName frags props proto = Inl e \<Longrightarrow> e = RangeError"
  by (induction frags arbitrary: props proto) (auto split: if_splits)

lemma lower_Suc_Inr:
  assumes "transformSelectionSetToLegacyIR env (Suc depth) context selectionSet = Inr lowered"
  obtains fields' frags props proto where
    "transformFieldsToLegacyIR env depth context
       (record_fields (default_record (typeCaseOf env context selectionSet))) = Inr fields'"
    "flatMapRecords env depth context selectionSet
       (filter (keepsRecord selectionSet) (records (typeCaseOf env context selectionSet)))
       = Inr frags"
    "assignByTypeName frags [] None = Inr (props, proto)"
    "lowered = \<lparr> lowered_fields = fields',
                 lowered_fragmentSpreads = map fragmentName
                   (collectFragmentSpreads selectionSet (possibleTypes selectionSet)),
                 lowered_inlineFragments = InlineFragmentArray frags props proto \<rparr>"
  using assms by (auto simp: Let_def split: sum.splits)

lemma lower_Inr_depth:
  "transformSelectionSetToLegacyIR env depth context selectionSet = Inr lowered \<Longrightarrow>
   \<exists>d. depth = Suc d"
  by (cases depth) auto

lemma flatMapRecords_Inr:
  "flatMapRecords env depth context selectionSet recs = Inr frags \<Longrightarrow>
   \<exists>lists. list_all2 (\<lambda>record fields'.
                 transformFieldsToLegacyIR env depth context (record_fields record) = Inr fields')
               recs lists \<and>
     frags = concat (map (\<lambda>(record, fields').
               map (\<lambda>possibleType. CompiledInlineFragment possibleType [possibleType] fields'
                      (map fragmentName (collectFragmentSpreads selectionSet (record_possibleTypes record))))
                   (record_possibleTypes record)) (zip recs lists))"
proof (induction recs arbitrary: frags)
  case Nil
  then show ?case by simp
next
  case (Cons r rest)
  from Cons.prems obtain fs others where
    fs: "transformFieldsToLegacyIR env depth context (record_fields r) = Inr fs" and
    others: "flatMapRecords env depth context selectionSet rest = Inr others" and
    frags: "frags = map (\<lambda>possibleType. CompiledInlineFragment possibleType [possibleType] fs
                      (map fragmentName (collectFragmentSpreads selectionSet (record_possibleTypes r))))
                   (record_possibleTypes r) @ others"
    by (auto simp: Let_def split: sum.splits)
  from Cons.IH [OF others] obtain lists where
    l: "list_all2 (\<lambda>record fields'.
                 transformFieldsToLegacyIR env depth context (record_fields record) = Inr fields')
               rest lists"
    and o: "others = concat (map (\<lambda>(record, fields').
               map (\<lambda>possibleType. CompiledInlineFragment possibleType [possibleType] fields'
                      (map fragmentName (collectFragmentSpreads selectionSet (record_possibleTypes record))))
                   (record_possibleTypes record)) (zip rest lists))"
    by blast
  show ?case
    by (rule exI [of _ "fs # lists"]) (simp add: fs l frags o)
qed

lemma keepsRecord_iff:
  "keepsRecord selectionSet record \<longleftrightarrow>
     \<not> set (possibleTypes selectionSet) \<subseteq> set (record_possibleTypes record)
     \<and> record_fields record \<noteq> []"
  by (simp add: keepsRecord_def every_included_iff fieldMap_size_def record_fields_def)

lemma keepsRecord_eq:
  "keepsRecord selectionSet = (\<lambda>record.
     \<not> set (possibleTypes selectionSet) \<subseteq> set (record_possibleTypes record)
     \<and> record_fields record \<noteq> [])"
  by (rule ext) (rule keepsRecord_iff)

lemma flatMapRecords_filter_parts:
  "flatMapRecords env depth ctx selectionSet (filter P recs) = Inr frags \<Longrightarrow>
   \<exists>parts. frags = concat parts \<and>
     list_all2 (\<lambda>record part.
        map typeCondition part = (if P record then record_possibleTypes record else []))
       recs parts"
proof (induction recs arbitrary: frags)
  case Nil
  then show ?case by simp
next
  case (Cons r rest)
  show ?case
  proof (cases "P r")
    case True
    with Cons.prems obtain fs others where
      others: "flatMapRecords env depth ctx selectionSet (filter P rest) = Inr others" and
      frags: "frags = map (\<lambda>possibleType. CompiledInlineFragment possibleType [possibleType] fs
                      (map fragmentName (collectFragmentSpreads selectionSet (record_possibleTypes r))))
                   (record_possibleTypes r) @ others"
      by (auto simp: Let_def split: sum.splits)
    from Cons.IH [OF others] obtain parts where
      p: "others = concat parts"
         "list_all2 (\<lambda>record part.
            map typeCondition part = (if P record then record_possibleTypes record else []))
           rest parts"
      by blast
    show ?thesis
      by (rule exI [of _ "map (\<lambda>possibleType. CompiledInlineFragment possibleType [possibleType] fs
                      (map fragmentName (collectFragmentSpreads selectionSet (record_possibleTypes r))))
                   (record_possibleTypes r) # parts"])
         (simp add: True frags p comp_def)
  next
    case False
    with Cons.prems have "flatMapRecords env depth ctx selectionSet (filter P rest) = Inr frags"
      by simp
    from Cons.IH [OF this] obtain parts where
      p: "frags = concat parts"
         "list_all2 (\<lambda>record part.
            map typeCondition part = (if P record then record_possibleTypes record else []))
           rest parts"
      by blast
    show ?thesis
      by (rule exI [of _ "[] # parts"]) (simp add: False p)
  qed
qed

lemma list_all2_zip_mem:
  "list_all2 P xs ys \<Longrightarrow> x \<in> set xs \<Longrightarrow> \<exists>y. (x, y) \<in> set (zip xs ys) \<and> P x y"
  by (induction rule: list_all2_induct) auto

lemma strict_not_covered:
  "set sub \<subset> set full \<Longrightarrow> set types \<subseteq> set sub \<Longrightarrow> \<not> set full \<subseteq> set types"
  by blast

subsection \<open>The depth of the call stack\<close>

lemma lower_deeper:
  "(\<forall>lowered d'. transformSelectionSetToLegacyIR env depth context selectionSet = Inr lowered
      \<longrightarrow> depth \<le> d'
      \<longrightarrow> transformSelectionSetToLegacyIR env d' context selectionSet = Inr lowered)"
  "(\<forall>lowered d'. transformFieldsToLegacyIR env depth context fields' = Inr lowered
      \<longrightarrow> depth \<le> d'
      \<longrightarrow> transformFieldsToLegacyIR env d' context fields' = Inr lowered)"
  "(\<forall>lowered d'. flatMapRecords env depth context selectionSet recs = Inr lowered
      \<longrightarrow> depth \<le> d'
      \<longrightarrow> flatMapRecords env d' context selectionSet recs = Inr lowered)"
proof (induction env depth "context" selectionSet and env depth "context" fields'
         and env depth "context" selectionSet recs
       rule: transformSelectionSetToLegacyIR_transformFieldsToLegacyIR_flatMapRecords.induct)
  case (1 env ctx selectionSet)
  then show ?case by simp
next
  case (2 env depth ctx selectionSet)
  show ?case
  proof (intro allI impI)
    fix lowered d'
    assume run: "transformSelectionSetToLegacyIR env (Suc depth) ctx selectionSet = Inr lowered"
       and le: "Suc depth \<le> d'"
    from le obtain d where d: "d' = Suc d" "depth \<le> d" by (cases d') auto
    from run obtain fs frags props proto where
      a: "transformFieldsToLegacyIR env depth ctx
            (record_fields (default_record (typeCaseOf env ctx selectionSet))) = Inr fs" and
      b: "flatMapRecords env depth ctx selectionSet
            (filter (keepsRecord selectionSet) (records (typeCaseOf env ctx selectionSet)))
            = Inr frags" and
      c: "assignByTypeName frags [] None = Inr (props, proto)" and
      e: "lowered = \<lparr> lowered_fields = fs,
                 lowered_fragmentSpreads = map fragmentName
                   (collectFragmentSpreads selectionSet (possibleTypes selectionSet)),
                 lowered_inlineFragments = InlineFragmentArray frags props proto \<rparr>"
      by (rule lower_Suc_Inr)
    from "2.IH"(1) [OF refl] a d have a': "transformFieldsToLegacyIR env d ctx
            (record_fields (default_record (typeCaseOf env ctx selectionSet))) = Inr fs"
      by blast
    from "2.IH"(2) [OF refl a] b d have b': "flatMapRecords env d ctx selectionSet
            (filter (keepsRecord selectionSet) (records (typeCaseOf env ctx selectionSet)))
            = Inr frags"
      by blast
    show "transformSelectionSetToLegacyIR env d' ctx selectionSet = Inr lowered"
      by (simp add: d a' b' c e)
  qed
next
  case (3 env depth ctx)
  then show ?case by simp
next
  case (4 env depth ctx field rest)
  show ?case
  proof (intro allI impI)
    fix lowered d'
    assume run: "transformFieldsToLegacyIR env depth ctx (field # rest) = Inr lowered"
       and le: "depth \<le> d'"
    from run obtain nested others where
      n: "(case field_selectionSet field of
              None \<Rightarrow> Inr None
            | Some nested \<Rightarrow>
                (case transformSelectionSetToLegacyIR env depth ctx nested of
                   Inl e \<Rightarrow> Inl e
                 | Inr lowered \<Rightarrow> Inr (Some lowered))) = Inr nested" and
      r: "transformFieldsToLegacyIR env depth ctx rest = Inr others"
      by (auto split: sum.splits)
    from "4.IH"(2) [OF n] r le have r': "transformFieldsToLegacyIR env d' ctx rest = Inr others"
      by blast
    have n': "(case field_selectionSet field of
              None \<Rightarrow> Inr None
            | Some nested \<Rightarrow>
                (case transformSelectionSetToLegacyIR env d' ctx nested of
                   Inl e \<Rightarrow> Inl e
                 | Inr lowered \<Rightarrow> Inr (Some lowered))) = Inr nested"
    proof (cases "field_selectionSet field")
      case None
      with n show ?thesis by simp
    next
      case (Some s)
      with n obtain l where l: "transformSelectionSetToLegacyIR env depth ctx s = Inr l"
        and nl: "nested = Some l"
        by (auto split: sum.splits)
      from "4.IH"(1) [OF Some] l le
      have "transformSelectionSetToLegacyIR env d' ctx s = Inr l" by blast
      with Some nl show ?thesis by simp
    qed
    from run n r have "lowered = LegacyField (or_else (field_alias field) (field_name field)) (field_name field)
                 (field_type field) (field_args field) (isConditional field)
                 (description field) (isDeprecated field) (deprecationReason field)
                 (map_option lowered_fields nested)
                 (map_option lowered_fragmentSpreads nested)
                 (map_option lowered_inlineFragments nested)
               # others"
      by simp
    then show "transformFieldsToLegacyIR env d' ctx (field # rest) = Inr lowered"
      by (simp add: n' r')
  qed
next
  case (5 env depth ctx selectionSet)
  then show ?case by simp
next
  case (6 env depth ctx selectionSet rcd rest)
  show ?case
  proof (intro allI impI)
    fix lowered d'
    assume run: "flatMapRecords env depth ctx selectionSet (rcd # rest) = Inr lowered"
       and le: "depth \<le> d'"
    from run obtain fs others where
      a: "transformFieldsToLegacyIR env depth ctx (record_fields rcd) = Inr fs" and
      b: "flatMapRecords env depth ctx selectionSet rest = Inr others" and
      e: "lowered = map (\<lambda>possibleType. CompiledInlineFragment possibleType [possibleType] fs
                      (map fragmentName (collectFragmentSpreads selectionSet (record_possibleTypes rcd))))
                   (record_possibleTypes rcd) @ others"
      by (auto simp: Let_def split: sum.splits)
    from "6.IH"(1) a le have a': "transformFieldsToLegacyIR env d' ctx (record_fields rcd) = Inr fs"
      by blast
    from "6.IH"(2) [OF a refl] b le have b': "flatMapRecords env d' ctx selectionSet rest = Inr others"
      by blast
    show "flatMapRecords env d' ctx selectionSet (rcd # rest) = Inr lowered"
      by (simp add: a' b' e)
  qed
qed

lemma lower_errors:
  "(\<forall>e. transformSelectionSetToLegacyIR env depth ctx selectionSet = Inl e
      \<longrightarrow> e = StackExhausted \<or> e = RangeError)"
  "(\<forall>e. transformFieldsToLegacyIR env depth ctx fields' = Inl e
      \<longrightarrow> e = StackExhausted \<or> e = RangeError)"
  "(\<forall>e. flatMapRecords env depth ctx selectionSet recs = Inl e
      \<longrightarrow> e = StackExhausted \<or> e = RangeError)"
proof (induction env depth ctx selectionSet and env depth ctx fields'
         and env depth ctx selectionSet recs
       rule: transformSelectionSetToLegacyIR_transformFieldsToLegacyIR_flatMapRecords.induct)
  case (1 env ctx selectionSet)
  then show ?case by simp
next
  case (2 env depth ctx selectionSet)
  show ?case
    using "2.IH" assignByTypeName_error
    by (auto simp: Let_def split: sum.splits)
next
  case (3 env depth ctx)
  then show ?case by simp
next
  case (4 env depth ctx field rest)
  show ?case
    using "4.IH" by (auto split: sum.splits option.splits)
next
  case (5 env depth ctx selectionSet)
  then show ?case by simp
next
  case (6 env depth ctx selectionSet rcd rest)
  show ?case
    using "6.IH" by (auto simp: Let_def split: sum.splits)
qed

lemma fields_return_iff:
  "(\<exists>lowered. transformFieldsToLegacyIR env depth ctx fields' = Inr lowered) \<longleftrightarrow>
   list_all (\<lambda>field. case field_selectionSet field of
                       None \<Rightarrow> True
                     | Some nested \<Rightarrow>
                         (\<exists>lowered. transformSelectionSetToLegacyIR env depth ctx nested = Inr lowered))
     fields'"
  by (induction fields') (auto split: option.splits sum.splits)

lemma records_return_iff:
  "(\<exists>frags. flatMapRecords env depth ctx selectionSet recs = Inr frags) \<longleftrightarrow>
   list_all (\<lambda>record. \<exists>lowered.
       transformFieldsToLegacyIR env depth ctx (record_fields record) = Inr lowered) recs"
  by (induction recs) (auto simp: Let_def split: sum.splits)

lemma records_conditions:
  "flatMapRecords env depth ctx selectionSet recs = Inr frags \<Longrightarrow>
   map typeCondition frags = concat (map record_possibleTypes recs)"
  by (induction recs arbitrary: frags) (auto simp: Let_def comp_def split: sum.splits)

lemma assign_returns_iff:
  "(\<exists>assigned. assignByTypeName frags props proto = Inr assigned) \<longleftrightarrow>
   list_all (\<lambda>type. name type \<noteq> ''length'') (map typeCondition frags)"
  by (induction frags arbitrary: props proto) (auto simp: list_all_iff)

lemma lowering_returns_iff:
  "(\<exists>lowered. transformSelectionSetToLegacyIR env depth ctx selectionSet = Inr lowered)
   \<longleftrightarrow> well_nested env depth ctx selectionSet"
proof (induction depth arbitrary: selectionSet)
  case 0
  show ?case by simp
next
  case (Suc depth)
  let ?tc = "typeCaseOf env ctx selectionSet"
  let ?kept = "filter (keepsRecord selectionSet) (records ?tc)"
  have fields: "(\<exists>lowered. transformFieldsToLegacyIR env depth ctx fs = Inr lowered) \<longleftrightarrow>
      list_all (\<lambda>field. case field_selectionSet field of
                       None \<Rightarrow> True
                     | Some nested \<Rightarrow> well_nested env depth ctx nested) fs" for fs
    unfolding fields_return_iff using Suc.IH
    by (auto simp: list_all_iff split: option.splits)
  show ?case
  proof
    assume "\<exists>lowered. transformSelectionSetToLegacyIR env (Suc depth) ctx selectionSet = Inr lowered"
    then obtain lowered where
      "transformSelectionSetToLegacyIR env (Suc depth) ctx selectionSet = Inr lowered" ..
    then obtain fs frags props proto where
      a: "transformFieldsToLegacyIR env depth ctx (record_fields (default_record ?tc)) = Inr fs" and
      b: "flatMapRecords env depth ctx selectionSet ?kept = Inr frags" and
      c: "assignByTypeName frags [] None = Inr (props, proto)"
      by (rule lower_Suc_Inr)
    from a fields have 1: "list_all (\<lambda>field. case field_selectionSet field of
                       None \<Rightarrow> True
                     | Some nested \<Rightarrow> well_nested env depth ctx nested)
                 (record_fields (default_record ?tc))"
      by blast
    from b records_return_iff [of env depth ctx selectionSet ?kept] fields
    have 2: "list_all (\<lambda>record. list_all (\<lambda>field. case field_selectionSet field of
                       None \<Rightarrow> True
                     | Some nested \<Rightarrow> well_nested env depth ctx nested)
                 (record_fields record)) ?kept"
      by (auto simp: list_all_iff)
    from c assign_returns_iff [of frags "[]" None] records_conditions [OF b]
    have 3: "list_all (\<lambda>record. list_all (\<lambda>type. name type \<noteq> ''length'')
                 (record_possibleTypes record)) ?kept"
      by (auto simp: list_all_iff)
    from 1 2 3 show "well_nested env (Suc depth) ctx selectionSet"
      by simp
  next
    assume w: "well_nested env (Suc depth) ctx selectionSet"
    from w fields obtain fs where
      a: "transformFieldsToLegacyIR env depth ctx (record_fields (default_record ?tc)) = Inr fs"
      by auto
    from w fields have "list_all (\<lambda>record. \<exists>lowered.
       transformFieldsToLegacyIR env depth ctx (record_fields record) = Inr lowered) ?kept"
      by (auto simp: list_all_iff)
    with records_return_iff [of env depth ctx selectionSet ?kept] obtain frags where
      b: "flatMapRecords env depth ctx selectionSet ?kept = Inr frags"
      by blast
    from w records_conditions [OF b]
    have "list_all (\<lambda>type. name type \<noteq> ''length'') (map typeCondition frags)"
      by (auto simp: list_all_iff)
    with assign_returns_iff [of frags "[]" None] obtain assigned where
      c: "assignByTypeName frags [] None = Inr assigned"
      by blast
    from a b c show
      "\<exists>lowered. transformSelectionSetToLegacyIR env (Suc depth) ctx selectionSet = Inr lowered"
      by (simp add: Let_def)
  qed
qed

lemma lowered_of_well_nested:
  assumes "well_nested env depth ctx selectionSet"
  obtains lowered where
    "transformSelectionSetToLegacyIR env depth ctx selectionSet = Inr lowered"
  using assms lowering_returns_iff by blast

subsection \<open>What a returned lowering holds\<close>

lemma fan_out_result:
  assumes "transformSelectionSetToLegacyIR env depth ctx selectionSet = Inr lowered"
  shows "\<exists>lists.
     list_all2 (\<lambda>record fields'.
         transformFieldsToLegacyIR env (depth - 1) ctx (record_fields record) = Inr fields')
       (filter (\<lambda>record.
            \<not> set (possibleTypes selectionSet) \<subseteq> set (record_possibleTypes record)
            \<and> record_fields record \<noteq> [])
          (records (typeCaseOf env ctx selectionSet)))
       lists
     \<and> elems (lowered_inlineFragments lowered) =
         concat (map (\<lambda>(record, fields').
           map (\<lambda>possibleType.
                  CompiledInlineFragment possibleType [possibleType] fields'
                    (map fragmentName
                       (collectFragmentSpreads selectionSet (record_possibleTypes record))))
               (record_possibleTypes record))
           (zip (filter (\<lambda>record.
                    \<not> set (possibleTypes selectionSet) \<subseteq> set (record_possibleTypes record)
                    \<and> record_fields record \<noteq> [])
                  (records (typeCaseOf env ctx selectionSet)))
                lists))"
proof -
  from assms obtain d where d: "depth = Suc d" using lower_Inr_depth by blast
  with assms have "transformSelectionSetToLegacyIR env (Suc d) ctx selectionSet = Inr lowered"
    by simp
  then obtain fs frags props proto where
    frags: "flatMapRecords env d ctx selectionSet
       (filter (keepsRecord selectionSet) (records (typeCaseOf env ctx selectionSet)))
       = Inr frags" and
    lowered: "lowered = \<lparr> lowered_fields = fs,
                 lowered_fragmentSpreads = map fragmentName
                   (collectFragmentSpreads selectionSet (possibleTypes selectionSet)),
                 lowered_inlineFragments = InlineFragmentArray frags props proto \<rparr>"
    by (rule lower_Suc_Inr)
  from flatMapRecords_Inr [OF frags] show ?thesis
    by (simp add: lowered d keepsRecord_eq)
qed

lemma skip_rules_result:
  assumes "transformSelectionSetToLegacyIR env depth ctx selectionSet = Inr lowered"
  shows "(\<exists>parts.
            elems (lowered_inlineFragments lowered) = concat parts \<and>
            list_all2 (\<lambda>record part.
                map typeCondition part =
                  (if \<not> set (possibleTypes selectionSet) \<subseteq> set (record_possibleTypes record)
                      \<and> record_fields record \<noteq> []
                   then record_possibleTypes record else []))
              (records (typeCaseOf env ctx selectionSet)) parts)
         \<and> ((\<forall>record \<in> set (records (typeCaseOf env ctx selectionSet)).
                set (possibleTypes selectionSet) \<subseteq> set (record_possibleTypes record))
              \<longrightarrow> elems (lowered_inlineFragments lowered) = [])
         \<and> ((\<forall>record \<in> set (records (typeCaseOf env ctx selectionSet)).
                record_fields record = [])
              \<longrightarrow> elems (lowered_inlineFragments lowered) = [])"
proof -
  from assms obtain d where d: "depth = Suc d" using lower_Inr_depth by blast
  with assms have "transformSelectionSetToLegacyIR env (Suc d) ctx selectionSet = Inr lowered"
    by simp
  then obtain fs frags props proto where
    frags: "flatMapRecords env d ctx selectionSet
       (filter (keepsRecord selectionSet) (records (typeCaseOf env ctx selectionSet)))
       = Inr frags" and
    lowered: "lowered = \<lparr> lowered_fields = fs,
                 lowered_fragmentSpreads = map fragmentName
                   (collectFragmentSpreads selectionSet (possibleTypes selectionSet)),
                 lowered_inlineFragments = InlineFragmentArray frags props proto \<rparr>"
    by (rule lower_Suc_Inr)
  let ?recs = "records (typeCaseOf env ctx selectionSet)"
  from flatMapRecords_filter_parts [OF frags] obtain parts where
    parts: "frags = concat parts"
      "list_all2 (\<lambda>record part.
          map typeCondition part =
            (if keepsRecord selectionSet record then record_possibleTypes record else []))
         ?recs parts"
    by blast
  have first: "\<exists>parts.
            elems (lowered_inlineFragments lowered) = concat parts \<and>
            list_all2 (\<lambda>record part.
                map typeCondition part =
                  (if \<not> set (possibleTypes selectionSet) \<subseteq> set (record_possibleTypes record)
                      \<and> record_fields record \<noteq> []
                   then record_possibleTypes record else []))
              ?recs parts"
    using parts by (auto simp: lowered keepsRecord_iff intro!: exI [of _ parts])
  have empty: "frags = []" if "\<forall>record \<in> set ?recs. \<not> keepsRecord selectionSet record"
  proof -
    from that have "filter (keepsRecord selectionSet) ?recs = []"
      by (simp add: filter_empty_conv)
    with frags show ?thesis by simp
  qed
  have second: "(\<forall>record \<in> set ?recs.
                set (possibleTypes selectionSet) \<subseteq> set (record_possibleTypes record))
              \<longrightarrow> elems (lowered_inlineFragments lowered) = []"
    using empty by (simp add: lowered keepsRecord_iff)
  have third: "(\<forall>record \<in> set ?recs. record_fields record = [])
              \<longrightarrow> elems (lowered_inlineFragments lowered) = []"
    using empty by (simp add: lowered keepsRecord_iff)
  from first second third show ?thesis by blast
qed

lemma nested_spread_result:
  assumes run: "transformSelectionSetToLegacyIR env depth ctx selectionSet = Inr lowered"
      and occ: "spreadOccurrences selectionSet = before @ (conditions, spread) # after"
      and narrower: "narrower \<in> set conditions"
      and strict: "set narrower \<subset> set (possibleTypes selectionSet)"
  shows "lowered_fragmentSpreads lowered =
           map (\<lambda>occurrence. fragmentName (snd occurrence))
             (filter (in_view (possibleTypes selectionSet)) (before @ after))
         \<and> (\<forall>record \<in> set (records (typeCaseOf env ctx selectionSet)).
               record_fields record \<noteq> []
               \<and> in_view (record_possibleTypes record) (conditions, spread) \<longrightarrow>
               (\<exists>fields'.
                  transformFieldsToLegacyIR env (depth - 1) ctx (record_fields record) = Inr fields'
                  \<and> (\<forall>possibleType \<in> set (record_possibleTypes record).
                        CompiledInlineFragment possibleType [possibleType] fields'
                          (map fragmentName
                             (collectFragmentSpreads selectionSet (record_possibleTypes record)))
                        \<in> set (elems (lowered_inlineFragments lowered)))
                  \<and> fragmentName spread
                      \<in> set (map fragmentName
                          (collectFragmentSpreads selectionSet (record_possibleTypes record)))))"
proof -
  from run obtain d where d: "depth = Suc d" using lower_Inr_depth by blast
  with run have "transformSelectionSetToLegacyIR env (Suc d) ctx selectionSet = Inr lowered"
    by simp
  then obtain fs frags props proto where
    frags: "flatMapRecords env d ctx selectionSet
       (filter (keepsRecord selectionSet) (records (typeCaseOf env ctx selectionSet)))
       = Inr frags" and
    lowered: "lowered = \<lparr> lowered_fields = fs,
                 lowered_fragmentSpreads = map fragmentName
                   (collectFragmentSpreads selectionSet (possibleTypes selectionSet)),
                 lowered_inlineFragments = InlineFragmentArray frags props proto \<rparr>"
    by (rule lower_Suc_Inr)
  let ?kept = "filter (keepsRecord selectionSet) (records (typeCaseOf env ctx selectionSet))"
  have hidden: "\<not> in_view (possibleTypes selectionSet) (conditions, spread)"
  proof
    assume "in_view (possibleTypes selectionSet) (conditions, spread)"
    from in_view_within [OF this narrower] strict show False by blast
  qed
  have first: "lowered_fragmentSpreads lowered =
           map (\<lambda>occurrence. fragmentName (snd occurrence))
             (filter (in_view (possibleTypes selectionSet)) (before @ after))"
    by (simp add: lowered collect_occurrences(1) occ hidden comp_def)
  from flatMapRecords_Inr [OF frags] obtain lists where
    lists: "list_all2 (\<lambda>record fields'.
                 transformFieldsToLegacyIR env d ctx (record_fields record) = Inr fields')
               ?kept lists" and
    concat: "frags = concat (map (\<lambda>(record, fields').
               map (\<lambda>possibleType. CompiledInlineFragment possibleType [possibleType] fields'
                      (map fragmentName (collectFragmentSpreads selectionSet (record_possibleTypes record))))
                   (record_possibleTypes record)) (zip ?kept lists))"
    by blast
  have second: "\<exists>fields'.
                  transformFieldsToLegacyIR env (depth - 1) ctx (record_fields rcd) = Inr fields'
                  \<and> (\<forall>possibleType \<in> set (record_possibleTypes rcd).
                        CompiledInlineFragment possibleType [possibleType] fields'
                          (map fragmentName
                             (collectFragmentSpreads selectionSet (record_possibleTypes rcd)))
                        \<in> set (elems (lowered_inlineFragments lowered)))
                  \<and> fragmentName spread
                      \<in> set (map fragmentName
                          (collectFragmentSpreads selectionSet (record_possibleTypes rcd)))"
    if mem: "rcd \<in> set (records (typeCaseOf env ctx selectionSet))"
      and nonempty: "record_fields rcd \<noteq> []"
      and view: "in_view (record_possibleTypes rcd) (conditions, spread)"
    for rcd
  proof -
    from in_view_within [OF view narrower]
    have within: "set (record_possibleTypes rcd) \<subseteq> set narrower" .
    have "keepsRecord selectionSet rcd"
      using strict_not_covered [OF strict within] nonempty by (simp add: keepsRecord_iff)
    with mem have "rcd \<in> set ?kept" by simp
    from list_all2_zip_mem [OF lists this] obtain fields' where
      z: "(rcd, fields') \<in> set (zip ?kept lists)" and
      f: "transformFieldsToLegacyIR env d ctx (record_fields rcd) = Inr fields'"
      by blast
    have emitted: "CompiledInlineFragment possibleType [possibleType] fields'
                (map fragmentName (collectFragmentSpreads selectionSet (record_possibleTypes rcd)))
              \<in> set frags"
      if t: "possibleType \<in> set (record_possibleTypes rcd)" for possibleType
    proof -
      let ?expand = "\<lambda>(record, fields').
               map (\<lambda>possibleType. CompiledInlineFragment possibleType [possibleType] fields'
                      (map fragmentName (collectFragmentSpreads selectionSet (record_possibleTypes record))))
                   (record_possibleTypes record)"
      from z have "?expand (rcd, fields') \<in> set (map ?expand (zip ?kept lists))"
        by (simp only: set_map) (rule imageI)
      moreover from t have "CompiledInlineFragment possibleType [possibleType] fields'
                (map fragmentName (collectFragmentSpreads selectionSet (record_possibleTypes rcd)))
              \<in> set (?expand (rcd, fields'))"
        by simp
      ultimately have "CompiledInlineFragment possibleType [possibleType] fields'
                (map fragmentName (collectFragmentSpreads selectionSet (record_possibleTypes rcd)))
              \<in> set (concat (map ?expand (zip ?kept lists)))"
        unfolding set_concat by (rule UN_I)
      then show ?thesis by (simp only: concat)
    qed
    have "(conditions, spread) \<in> set (filter (in_view (record_possibleTypes rcd))
                                        (spreadOccurrences selectionSet))"
      using view by (simp add: occ)
    then have "snd (conditions, spread)
        \<in> set (map snd (filter (in_view (record_possibleTypes rcd))
                          (spreadOccurrences selectionSet)))"
      by (simp only: set_map) (rule imageI)
    then have "spread \<in> set (collectFragmentSpreads selectionSet (record_possibleTypes rcd))"
      by (simp only: collect_occurrences(1) snd_conv)
    then have "fragmentName spread
        \<in> set (map fragmentName (collectFragmentSpreads selectionSet (record_possibleTypes rcd)))"
      by simp
    moreover have "transformFieldsToLegacyIR env (depth - 1) ctx (record_fields rcd) = Inr fields'"
      using f by (simp add: d)
    moreover have "\<forall>possibleType \<in> set (record_possibleTypes rcd).
                        CompiledInlineFragment possibleType [possibleType] fields'
                          (map fragmentName
                             (collectFragmentSpreads selectionSet (record_possibleTypes rcd)))
                        \<in> set (elems (lowered_inlineFragments lowered))"
      using emitted by (simp add: lowered)
    ultimately show ?thesis by (intro exI [of _ fields'] conjI)
  qed
  show ?thesis
  proof (intro conjI ballI impI)
    show "lowered_fragmentSpreads lowered =
           map (\<lambda>occurrence. fragmentName (snd occurrence))
             (filter (in_view (possibleTypes selectionSet)) (before @ after))"
      by (rule first)
  next
    fix rcd
    assume "rcd \<in> set (records (typeCaseOf env ctx selectionSet))"
       and "record_fields rcd \<noteq> []
              \<and> in_view (record_possibleTypes rcd) (conditions, spread)"
    then show "\<exists>fields'.
                  transformFieldsToLegacyIR env (depth - 1) ctx (record_fields rcd) = Inr fields'
                  \<and> (\<forall>possibleType \<in> set (record_possibleTypes rcd).
                        CompiledInlineFragment possibleType [possibleType] fields'
                          (map fragmentName
                             (collectFragmentSpreads selectionSet (record_possibleTypes rcd)))
                        \<in> set (elems (lowered_inlineFragments lowered)))
                  \<and> fragmentName spread
                      \<in> set (map fragmentName
                          (collectFragmentSpreads selectionSet (record_possibleTypes rcd)))"
      using second [of rcd] by (elim conjE) simp
  qed
qed

lemma named_by_typeCondition_result:
  assumes "transformSelectionSetToLegacyIR env depth ctx selectionSet = Inr lowered"
      and "inlineFragment \<in> set (elems (lowered_inlineFragments lowered))"
      and "name (typeCondition inlineFragment) \<noteq> ''__proto__''"
  shows "map_of (named (lowered_inlineFragments lowered)) (name (typeCondition inlineFragment)) =
           Some (last (filter (\<lambda>other. name (typeCondition other) = name (typeCondition inlineFragment))
                         (elems (lowered_inlineFragments lowered))))"
proof -
  from assms(1) obtain d where "depth = Suc d" using lower_Inr_depth by blast
  with assms(1) have "transformSelectionSetToLegacyIR env (Suc d) ctx selectionSet = Inr lowered"
    by simp
  then obtain fs frags props proto where
    props: "assignByTypeName frags [] None = Inr (props, proto)" and
    lowered: "lowered = \<lparr> lowered_fields = fs,
                 lowered_fragmentSpreads = map fragmentName
                   (collectFragmentSpreads selectionSet (possibleTypes selectionSet)),
                 lowered_inlineFragments = InlineFragmentArray frags props proto \<rparr>"
    by (rule lower_Suc_Inr)
  let ?k = "name (typeCondition inlineFragment)"
  from assms(2) lowered have "inlineFragment \<in> set frags" by simp
  then have ne: "filter (\<lambda>other. name (typeCondition other) = ?k) frags \<noteq> []"
    by (auto simp: filter_empty_conv)
  have "map_of props ?k = Some (last (filter (\<lambda>other. name (typeCondition other) = ?k) frags))"
    using assignByTypeName_map_of [OF props, of ?k] ne assms(3) by (simp split: list.splits)
  then show ?thesis using lowered by simp
qed

lemma named_and_prototype_result:
  assumes "transformSelectionSetToLegacyIR env depth ctx selectionSet = Inr lowered"
  shows "fst ` set (named (lowered_inlineFragments lowered)) =
           (\<lambda>other. name (typeCondition other)) ` set (elems (lowered_inlineFragments lowered))
           - {''__proto__''}"
    and "prototype (lowered_inlineFragments lowered) =
           (case filter (\<lambda>other. name (typeCondition other) = ''__proto__'')
                   (elems (lowered_inlineFragments lowered)) of
              [] \<Rightarrow> None
            | f # fs \<Rightarrow> Some (last (f # fs)))"
proof -
  from assms obtain d where "depth = Suc d" using lower_Inr_depth by blast
  with assms have "transformSelectionSetToLegacyIR env (Suc d) ctx selectionSet = Inr lowered"
    by simp
  then obtain fs frags props proto where
    props: "assignByTypeName frags [] None = Inr (props, proto)" and
    lowered: "lowered = \<lparr> lowered_fields = fs,
                 lowered_fragmentSpreads = map fragmentName
                   (collectFragmentSpreads selectionSet (possibleTypes selectionSet)),
                 lowered_inlineFragments = InlineFragmentArray frags props proto \<rparr>"
    by (rule lower_Suc_Inr)
  show "fst ` set (named (lowered_inlineFragments lowered)) =
           (\<lambda>other. name (typeCondition other)) ` set (elems (lowered_inlineFragments lowered))
           - {''__proto__''}"
    using assignByTypeName_keys [OF props] by (simp add: lowered)
  show "prototype (lowered_inlineFragments lowered) =
           (case filter (\<lambda>other. name (typeCondition other) = ''__proto__'')
                   (elems (lowered_inlineFragments lowered)) of
              [] \<Rightarrow> None
            | f # fs \<Rightarrow> Some (last (f # fs)))"
    using assignByTypeName_prototype [OF props] by (simp add: lowered)
qed

lemma contributes_iff_result:
  assumes "transformSelectionSetToLegacyIR env depth ctx selectionSet = Inr lowered"
  shows "\<exists>parts.
           elems (lowered_inlineFragments lowered) = concat parts \<and>
           list_all2 (\<lambda>record part.
               part \<noteq> [] \<longleftrightarrow>
                 \<not> set (possibleTypes selectionSet) \<subseteq> set (record_possibleTypes record)
                 \<and> record_fields record \<noteq> [] \<and> record_possibleTypes record \<noteq> [])
             (records (typeCaseOf env ctx selectionSet)) parts"
proof -
  from skip_rules_result [OF assms] obtain parts where
    c: "elems (lowered_inlineFragments lowered) = concat parts" and
    p: "list_all2 (\<lambda>record part.
                map typeCondition part =
                  (if \<not> set (possibleTypes selectionSet) \<subseteq> set (record_possibleTypes record)
                      \<and> record_fields record \<noteq> []
                   then record_possibleTypes record else []))
              (records (typeCaseOf env ctx selectionSet)) parts"
    by blast
  from p have "list_all2 (\<lambda>record part.
               part \<noteq> [] \<longleftrightarrow>
                 \<not> set (possibleTypes selectionSet) \<subseteq> set (record_possibleTypes record)
                 \<and> record_fields record \<noteq> [] \<and> record_possibleTypes record \<noteq> [])
             (records (typeCaseOf env ctx selectionSet)) parts"
  proof (rule list_all2_mono)
    fix rcd part
    assume "map typeCondition part =
                  (if \<not> set (possibleTypes selectionSet) \<subseteq> set (record_possibleTypes rcd)
                      \<and> record_fields rcd \<noteq> []
                   then record_possibleTypes rcd else [])"
    then show "part \<noteq> [] \<longleftrightarrow>
                 \<not> set (possibleTypes selectionSet) \<subseteq> set (record_possibleTypes rcd)
                 \<and> record_fields rcd \<noteq> [] \<and> record_possibleTypes rcd \<noteq> []"
      by (cases part) (auto split: if_splits)
  qed
  with c show ?thesis by blast
qed

section \<open>Properties of the assembler\<close>

lemma join_pieces:
  "join separator (piece # rest) = piece @ concat (map (\<lambda>next. separator @ next) rest)"
  by (induction rest arbitrary: piece) simp_all

lemma hex_digit_range: "hex_digit n \<in> set ''0123456789abcdef''"
  unfolding hex_digit_def by (rule nth_mem) simp

lemma hex32_format:
  "length (hex32 w) = 8" "set (hex32 w) \<subseteq> set ''0123456789abcdef''"
  using hex_digit_range by (auto simp: hex32_def simp del: set_simps)

lemma hex_state_format:
  "length (hex_state st) = 64 \<and> set (hex_state st) \<subseteq> set ''0123456789abcdef''"
proof (cases st rule: hex_state.cases)
  case (1 a b c d e f g h)
  then show ?thesis
    using hex32_format by (simp del: set_simps)
qed

lemma sha256_hex_format:
  "length (sha256_hex s) = 64 \<and> set (sha256_hex s) \<subseteq> set ''0123456789abcdef''"
  unfolding sha256_hex_def by (rule hex_state_format)

lemma fragmentSources_Inr:
  "fragmentSources frags names = Inr sources \<Longrightarrow>
   list_all2 (\<lambda>name' source'. \<exists>fragment. map_of frags name' = Some fragment
                                  \<and> source' = fragment_source fragment) names sources"
  by (induction names arbitrary: sources) (auto split: option.splits sum.splits)

lemma fragmentSources_Inl:
  "fragmentSources frags names = Inl e \<Longrightarrow> e = TypeError ''source''"
  by (induction names) (auto split: option.splits sum.splits)

lemma fragmentSources_missing:
  "missing \<in> set names \<Longrightarrow> map_of frags missing = None \<Longrightarrow>
   fragmentSources frags names = Inl (TypeError ''source'')"
proof (induction names)
  case Nil
  then show ?case by simp
next
  case (Cons n rest)
  show ?case
  proof (cases "map_of frags n")
    case None
    then show ?thesis by simp
  next
    case (Some fragment)
    with Cons.prems have "missing \<in> set rest" by auto
    from Cons.IH [OF this Cons.prems(2)] Some show ?thesis by simp
  qed
qed

lemma fragmentSources_returns_iff:
  "(\<exists>sources. fragmentSources frags names = Inr sources) \<longleftrightarrow>
   list_all (\<lambda>name'. map_of frags name' \<noteq> None) names"
  by (induction names) (auto split: option.splits sum.splits)

lemma compileOperation_Inr:
  assumes "compileOperation env depth ctx name' operation = Inr compiled"
  obtains sources lowered where
    "fragmentSources (new_fragments ctx)
       (collectFragmentsReferenced env ctx (operation_selectionSet operation)) = Inr sources"
    "transformSelectionSetToLegacyIR env depth ctx (operation_selectionSet operation) = Inr lowered"
    "compiled =
       \<lparr> filePath = operation_filePath operation,
         operationName = name',
         operationId = Some (sha256_hex (join newline (operation_source operation # sources))),
         operationType = operation_operationType operation,
         rootType = operation_rootType operation,
         variables = operation_variables operation,
         source = operation_source operation,
         sourceWithFragments = Some (join newline (operation_source operation # sources)),
         compiled_fields = lowered_fields lowered,
         compiled_fragmentSpreads = Some (lowered_fragmentSpreads lowered),
         compiled_inlineFragments = Some (lowered_inlineFragments lowered),
         fragmentsReferenced =
           collectFragmentsReferenced env ctx (operation_selectionSet operation) \<rparr>"
  using assms by (auto simp: compileOperation_def Let_def split: sum.splits)

lemma compileOperations_from:
  "compileOperations env depth ctx entries acc = Inr result \<Longrightarrow>
   map_of result k = Some compiled \<Longrightarrow>
   map_of acc k = Some compiled
   \<or> (\<exists>operation. (k, operation) \<in> set entries
         \<and> compileOperation env depth ctx k operation = Inr compiled)"
proof (induction entries arbitrary: acc)
  case Nil
  then show ?case by simp
next
  case (Cons entry rest)
  obtain n operation where entry: "entry = (n, operation)" by (cases entry)
  from Cons.prems(1) entry obtain compiled' where
    c: "compileOperation env depth ctx n operation = Inr compiled'" and
    r: "compileOperations env depth ctx rest (AList.update n compiled' acc) = Inr result"
    by (auto split: sum.splits)
  from Cons.IH [OF r Cons.prems(2)] show ?case
  proof
    assume "map_of (AList.update n compiled' acc) k = Some compiled"
    then show ?thesis
      using c entry by (auto simp: update_conv' split: if_splits)
  next
    assume "\<exists>operation. (k, operation) \<in> set rest
         \<and> compileOperation env depth ctx k operation = Inr compiled"
    then show ?thesis by auto
  qed
qed

lemma compileToLegacyIR_Inr:
  assumes "compileToLegacyIR env depth schema' document options' = Inr legacy"
  obtains opts ctx where
    "opts = effective_options options'"
    "ctx = compileToIR env schema' document opts"
    "compileOperations env depth ctx (new_operations ctx) [] = Inr (operations legacy)"
    "compileFragments env depth ctx (new_fragments ctx) [] = Inr (fragments legacy)"
    "schema legacy = new_schema ctx" "typesUsed legacy = new_typesUsed ctx"
    "options legacy = opts"
  using assms by (auto simp: compileToLegacyIR_def Let_def split: sum.splits)

lemma compiled_operation_origin:
  assumes "compileToLegacyIR env depth schema' document options' = Inr legacy"
      and "map_of (operations legacy) name' = Some compiled"
  shows "\<exists>operation.
           (name', operation)
             \<in> set (new_operations (compileToIR env schema' document (effective_options options')))
           \<and> compileOperation env depth
                 (compileToIR env schema' document (effective_options options'))
                 name' operation = Inr compiled"
proof -
  from assms(1) obtain opts ctx where
    o: "opts = effective_options options'" and
    c: "ctx = compileToIR env schema' document opts" and
    ops: "compileOperations env depth ctx (new_operations ctx) [] = Inr (operations legacy)"
    by (rule compileToLegacyIR_Inr)
  from compileOperations_from [OF ops assms(2)] show ?thesis
    by (simp add: o c)
qed

lemma compileOperation_deeper:
  assumes "compileOperation env depth ctx name' operation = Inr compiled" and "depth \<le> d'"
  shows "compileOperation env d' ctx name' operation = Inr compiled"
proof -
  from assms(1) obtain sources lowered where
    s: "fragmentSources (new_fragments ctx)
       (collectFragmentsReferenced env ctx (operation_selectionSet operation)) = Inr sources" and
    l: "transformSelectionSetToLegacyIR env depth ctx (operation_selectionSet operation) = Inr lowered"
    by (rule compileOperation_Inr)
  from lower_deeper(1) l assms(2)
  have "transformSelectionSetToLegacyIR env d' ctx (operation_selectionSet operation) = Inr lowered"
    by blast
  with assms(1) s l show ?thesis
    by (simp add: compileOperation_def Let_def)
qed

lemma compileOperations_deeper:
  "compileOperations env depth ctx entries acc = Inr result \<Longrightarrow> depth \<le> d' \<Longrightarrow>
   compileOperations env d' ctx entries acc = Inr result"
proof (induction entries arbitrary: acc)
  case Nil
  then show ?case by simp
next
  case (Cons entry rest)
  obtain n operation where entry: "entry = (n, operation)" by (cases entry)
  from Cons.prems(1) entry obtain compiled' where
    c: "compileOperation env depth ctx n operation = Inr compiled'" and
    r: "compileOperations env depth ctx rest (AList.update n compiled' acc) = Inr result"
    by (auto split: sum.splits)
  from compileOperation_deeper [OF c Cons.prems(2)] Cons.IH [OF r Cons.prems(2)] entry
  show ?case by simp
qed

lemma compileFragment_deeper:
  assumes "compileFragment env depth ctx fragment = Inr compiled" and "depth \<le> d'"
  shows "compileFragment env d' ctx fragment = Inr compiled"
proof -
  from assms(1) obtain lowered where
    l: "transformSelectionSetToLegacyIR env depth ctx (fragment_selectionSet fragment) = Inr lowered"
    by (auto simp: compileFragment_def split: sum.splits)
  from lower_deeper(1) l assms(2)
  have "transformSelectionSetToLegacyIR env d' ctx (fragment_selectionSet fragment) = Inr lowered"
    by blast
  with assms(1) l show ?thesis
    by (simp add: compileFragment_def)
qed

lemma compileFragments_deeper:
  "compileFragments env depth ctx entries acc = Inr result \<Longrightarrow> depth \<le> d' \<Longrightarrow>
   compileFragments env d' ctx entries acc = Inr result"
proof (induction entries arbitrary: acc)
  case Nil
  then show ?case by simp
next
  case (Cons entry rest)
  obtain n fragment where entry: "entry = (n, fragment)" by (cases entry)
  from Cons.prems(1) entry obtain compiled' where
    c: "compileFragment env depth ctx fragment = Inr compiled'" and
    r: "compileFragments env depth ctx rest (AList.update n compiled' acc) = Inr result"
    by (auto split: sum.splits)
  from compileFragment_deeper [OF c Cons.prems(2)] Cons.IH [OF r Cons.prems(2)] entry
  show ?case by simp
qed

lemma compileToLegacyIR_deeper:
  assumes "compileToLegacyIR env depth schema' document options' = Inr legacy" and "depth \<le> d'"
  shows "compileToLegacyIR env d' schema' document options' = Inr legacy"
proof -
  from assms(1) obtain opts ctx where
    o: "opts = effective_options options'" and
    c: "ctx = compileToIR env schema' document opts" and
    ops: "compileOperations env depth ctx (new_operations ctx) [] = Inr (operations legacy)" and
    frs: "compileFragments env depth ctx (new_fragments ctx) [] = Inr (fragments legacy)"
    by (rule compileToLegacyIR_Inr)
  from compileOperations_deeper [OF ops assms(2)] compileFragments_deeper [OF frs assms(2)]
    assms(1) ops frs
  show ?thesis
    by (simp add: compileToLegacyIR_def Let_def o c)
qed

lemma compileOperation_errors:
  assumes "compileOperation env depth ctx name' operation = Inl e"
  shows "e = TypeError ''source'' \<or> e = RangeError
         \<or> e = StackExhausted"
proof (cases "fragmentSources (new_fragments ctx)
       (collectFragmentsReferenced env ctx (operation_selectionSet operation))")
  case (Inl e')
  with assms have "e = e'" by (simp add: compileOperation_def)
  with fragmentSources_Inl [OF Inl] show ?thesis by simp
next
  case (Inr sources)
  with assms have
    "transformSelectionSetToLegacyIR env depth ctx (operation_selectionSet operation) = Inl e"
    by (auto simp: compileOperation_def Let_def split: sum.splits)
  with lower_errors(1) show ?thesis by blast
qed

lemma compileOperations_errors:
  "compileOperations env depth ctx entries acc = Inl e \<Longrightarrow>
   e = TypeError ''source'' \<or> e = RangeError
   \<or> e = StackExhausted"
proof (induction entries arbitrary: acc)
  case Nil
  then show ?case by simp
next
  case (Cons entry rest)
  obtain n operation where entry: "entry = (n, operation)" by (cases entry)
  show ?case
  proof (cases "compileOperation env depth ctx n operation")
    case (Inl e')
    with Cons.prems entry have "e = e'" by simp
    with compileOperation_errors [OF Inl] show ?thesis by simp
  next
    case (Inr compiled')
    with Cons.prems entry have
      "compileOperations env depth ctx rest (AList.update n compiled' acc) = Inl e"
      by simp
    then show ?thesis by (rule Cons.IH)
  qed
qed

lemma compileOperation_missing:
  assumes "missing \<in> set (collectFragmentsReferenced env ctx (operation_selectionSet operation))"
      and "map_of (new_fragments ctx) missing = None"
  shows "compileOperation env depth ctx name' operation = Inl (TypeError ''source'')"
  using fragmentSources_missing [OF assms] by (simp add: compileOperation_def)

lemma compileOperations_stop:
  "(n, operation) \<in> set entries \<Longrightarrow> compileOperation env depth ctx n operation = Inl e0 \<Longrightarrow>
   \<exists>e. compileOperations env depth ctx entries acc = Inl e"
proof (induction entries arbitrary: acc)
  case Nil
  then show ?case by simp
next
  case (Cons entry rest)
  obtain n' operation' where entry: "entry = (n', operation')" by (cases entry)
  show ?case
  proof (cases "compileOperation env depth ctx n' operation'")
    case (Inl e')
    with entry show ?thesis by simp
  next
    case (Inr compiled')
    with Cons.prems entry have "(n, operation) \<in> set rest" by auto
    from Cons.IH [OF this Cons.prems(2)] Inr entry show ?thesis by simp
  qed
qed

lemma compileOperation_returns_iff:
  "(\<exists>compiled. compileOperation env depth ctx name' operation = Inr compiled) \<longleftrightarrow>
   list_all (\<lambda>referenced. map_of (new_fragments ctx) referenced \<noteq> None)
     (collectFragmentsReferenced env ctx (operation_selectionSet operation))
   \<and> well_nested env depth ctx (operation_selectionSet operation)"
  unfolding fragmentSources_returns_iff [symmetric] lowering_returns_iff [symmetric]
  by (auto simp: compileOperation_def Let_def split: sum.splits)

lemma compileOperations_returns_iff:
  "(\<exists>result. compileOperations env depth ctx entries acc = Inr result) \<longleftrightarrow>
   list_all (\<lambda>(name', operation).
       \<exists>compiled. compileOperation env depth ctx name' operation = Inr compiled) entries"
proof (induction entries arbitrary: acc)
  case Nil
  show ?case by simp
next
  case (Cons entry rest)
  obtain n operation where entry: "entry = (n, operation)" by (cases entry)
  show ?case
  proof (cases "compileOperation env depth ctx n operation")
    case (Inl e)
    with entry show ?thesis by simp
  next
    case (Inr compiled')
    with entry Cons.IH [of "AList.update n compiled' acc"] show ?thesis by simp
  qed
qed

lemma compileFragment_returns_iff:
  "(\<exists>compiled. compileFragment env depth ctx fragment = Inr compiled) \<longleftrightarrow>
   well_nested env depth ctx (fragment_selectionSet fragment)"
  unfolding lowering_returns_iff [symmetric]
  by (auto simp: compileFragment_def split: sum.splits)

lemma compileFragments_returns_iff:
  "(\<exists>result. compileFragments env depth ctx entries acc = Inr result) \<longleftrightarrow>
   list_all (\<lambda>(name', fragment).
       \<exists>compiled. compileFragment env depth ctx fragment = Inr compiled) entries"
proof (induction entries arbitrary: acc)
  case Nil
  show ?case by simp
next
  case (Cons entry rest)
  obtain n fragment where entry: "entry = (n, fragment)" by (cases entry)
  show ?case
  proof (cases "compileFragment env depth ctx fragment")
    case (Inl e)
    with entry show ?thesis by simp
  next
    case (Inr compiled')
    with entry Cons.IH [of "AList.update n compiled' acc"] show ?thesis by simp
  qed
qed

lemma compileToLegacyIR_returns_iff:
  "(\<exists>legacy. compileToLegacyIR env depth schema' document options' = Inr legacy) \<longleftrightarrow>
   list_all (\<lambda>(name', operation).
       list_all (\<lambda>referenced.
           map_of (new_fragments (compileToIR env schema' document (effective_options options')))
             referenced \<noteq> None)
         (collectFragmentsReferenced env
            (compileToIR env schema' document (effective_options options'))
            (operation_selectionSet operation))
       \<and> well_nested env depth (compileToIR env schema' document (effective_options options'))
           (operation_selectionSet operation))
     (new_operations (compileToIR env schema' document (effective_options options')))
   \<and> list_all (\<lambda>(name', fragment).
         well_nested env depth (compileToIR env schema' document (effective_options options'))
           (fragment_selectionSet fragment))
       (new_fragments (compileToIR env schema' document (effective_options options')))"
proof -
  let ?ctx = "compileToIR env schema' document (effective_options options')"
  have "(\<exists>legacy. compileToLegacyIR env depth schema' document options' = Inr legacy) \<longleftrightarrow>
        (\<exists>result. compileOperations env depth ?ctx (new_operations ?ctx) [] = Inr result)
        \<and> (\<exists>result. compileFragments env depth ?ctx (new_fragments ?ctx) [] = Inr result)"
    by (auto simp: compileToLegacyIR_def Let_def split: sum.splits)
  then show ?thesis
    unfolding compileOperations_returns_iff compileFragments_returns_iff
      compileOperation_returns_iff compileFragment_returns_iff .
qed

section \<open>The worked document, evaluated\<close>

lemma Dog_Cat: "Dog \<noteq> Cat" "Cat \<noteq> Dog" "name Dog = ''Dog''" "name Cat = ''Cat''"
  by (simp_all add: Dog_def Cat_def)

lemma pet_typeCase:
  "typeCaseOf (pet_imports frags) (pet_context frags opts) pet_selectionSet =
     TypeCase (Record [Dog, Cat] [(''name'', leaf ''name'')])
       [Record [Dog] [(''barkVolume'', leaf ''barkVolume'')],
        Record [Cat] [(''lives'', leaf ''lives'')]]"
  by (simp add: typeCaseOf_def pet_imports_def direct_typeCase_def pet_selectionSet_def
        dog_condition_def cat_condition_def leaf_def)

lemma pet_possibleTypes: "possibleTypes pet_selectionSet = [Dog, Cat]"
  by (simp add: pet_selectionSet_def)

lemma pet_spreads:
  "collectFragmentSpreads pet_selectionSet [Dog, Cat] = []"
  "collectFragmentSpreads pet_selectionSet [Dog] = []"
  "collectFragmentSpreads pet_selectionSet [Cat] = [FragmentSpread ''CatFields'']"
  by (simp_all add: pet_selectionSet_def dog_condition_def cat_condition_def
        every_included_def Dog_Cat)

lemma pet_lowering:
  "transformSelectionSetToLegacyIR (pet_imports frags) (Suc 0) (pet_context frags opts)
     pet_selectionSet = Inr pet_lowered"
  by (simp add: Let_def pet_typeCase pet_possibleTypes pet_spreads record_fields_def
        keepsRecord_def every_included_def fieldMap_size_def pet_lowered_def Dog_Cat
        dog_fragment_def cat_fragment_def leaf_def lowered_leaf_def or_else_def)

lemma pet_well_nested:
  "well_nested (pet_imports []) (Suc 0) (pet_context [] default_options) pet_selectionSet"
  using pet_lowering [of "[]" default_options] lowering_returns_iff by blast

lemma twice_lowering:
  "transformSelectionSetToLegacyIR (pet_imports []) (Suc 0) (pet_context [] default_options)
     twice_selectionSet =
   Inr \<lparr> lowered_fields = [], lowered_fragmentSpreads = [''CatFields''],
         lowered_inlineFragments =
           InlineFragmentArray
             [CompiledInlineFragment Cat [Cat] [lowered_leaf ''lives''] [''CatFields'', ''CatFields'']]
             [(''Cat'',
               CompiledInlineFragment Cat [Cat] [lowered_leaf ''lives''] [''CatFields'', ''CatFields''])]
             None \<rparr>"
proof -
  have tc: "typeCaseOf (pet_imports []) (pet_context [] default_options) twice_selectionSet =
     TypeCase (Record [Dog, Cat] []) [Record [Cat] [(''lives'', leaf ''lives'')]]"
    by (simp add: typeCaseOf_def pet_imports_def direct_typeCase_def twice_selectionSet_def
          cat_condition_def leaf_def)
  have pt: "possibleTypes twice_selectionSet = [Dog, Cat]"
    by (simp add: twice_selectionSet_def)
  have sp: "collectFragmentSpreads twice_selectionSet [Dog, Cat] = [FragmentSpread ''CatFields'']"
       "collectFragmentSpreads twice_selectionSet [Cat] =
          [FragmentSpread ''CatFields'', FragmentSpread ''CatFields'']"
    by (simp_all add: twice_selectionSet_def cat_condition_def every_included_def Dog_Cat)
  show ?thesis
    by (simp add: Let_def tc pt sp record_fields_def keepsRecord_def every_included_def
          fieldMap_size_def Dog_Cat leaf_def lowered_leaf_def or_else_def)
qed

lemma query_lowering:
  "transformSelectionSetToLegacyIR (pet_imports frags) (Suc (Suc 0)) (pet_context frags opts)
     query_selectionSet = Inr query_lowered"
proof -
  have tc: "typeCaseOf (pet_imports frags) (pet_context frags opts) query_selectionSet =
     TypeCase (Record [Query] [(''pet'', pet_field)]) []"
    by (simp add: typeCaseOf_def pet_imports_def direct_typeCase_def query_selectionSet_def
          pet_field_def)
  have sp: "collectFragmentSpreads query_selectionSet (possibleTypes query_selectionSet) = []"
    by (simp add: query_selectionSet_def)
  have f: "transformFieldsToLegacyIR (pet_imports frags) (Suc 0) (pet_context frags opts)
             [pet_field] = Inr (lowered_fields query_lowered)"
    by (simp add: pet_field_def pet_lowering or_else_def query_lowered_def
          del: transformSelectionSetToLegacyIR.simps)
  show ?thesis
    unfolding transformSelectionSetToLegacyIR.simps Let_def tc
    by (simp add: record_fields_def f sp query_lowered_def del: transformFieldsToLegacyIR.simps)
qed

lemma CatFields_lowering:
  "transformSelectionSetToLegacyIR (pet_imports frags) (Suc (Suc 0)) (pet_context frags opts)
     (fragment_selectionSet CatFields) =
   Inr \<lparr> lowered_fields = [lowered_leaf ''lives''], lowered_fragmentSpreads = [],
         lowered_inlineFragments = InlineFragmentArray [] [] None \<rparr>"
  by (simp add: Let_def CatFields_def typeCaseOf_def pet_imports_def direct_typeCase_def
        record_fields_def leaf_def lowered_leaf_def or_else_def)

lemma GetPet_compile:
  "compileOperation (pet_imports [(''CatFields'', CatFields)]) (Suc (Suc 0))
     (pet_context [(''CatFields'', CatFields)] opts) ''GetPet'' GetPet = Inr GetPet_compiled"
proof -
  have sel: "operation_selectionSet GetPet = query_selectionSet"
    by (simp add: GetPet_def)
  have refs: "collectFragmentsReferenced (pet_imports [(''CatFields'', CatFields)])
      (pet_context [(''CatFields'', CatFields)] opts) query_selectionSet = [''CatFields'']"
    by (simp add: pet_imports_def)
  have srcs: "fragmentSources (new_fragments (pet_context [(''CatFields'', CatFields)] opts))
      [''CatFields''] = Inr [''fragment CatFields on Cat { lives }'']"
    by (simp add: pet_context_def CatFields_def)
  show ?thesis
    unfolding compileOperation_def sel refs Let_def srcs query_lowering
    by (simp add: GetPet_compiled_def GetPet_def GetPet_text_def query_lowered_def)
qed

lemma CatFields_compile:
  "compileFragment (pet_imports frags) (Suc (Suc 0)) (pet_context frags opts) CatFields =
     Inr CatFields_compiled"
  unfolding compileFragment_def CatFields_lowering
  by (simp add: CatFields_compiled_def CatFields_def)

lemma pet_compile:
  "compileToLegacyIR (pet_imports [(''CatFields'', CatFields)]) (Suc (Suc 0)) () () options' =
     Inr (pet_legacy (effective_options options'))"
proof -
  have c: "compileToIR (pet_imports [(''CatFields'', CatFields)]) () () opts =
             pet_context [(''CatFields'', CatFields)] opts" for opts
    by (simp add: pet_imports_def)
  have ops: "new_operations (pet_context [(''CatFields'', CatFields)] opts) = [(''GetPet'', GetPet)]"
    and frs: "new_fragments (pet_context [(''CatFields'', CatFields)] opts)
                = [(''CatFields'', CatFields)]"
    and rest: "new_schema (pet_context [(''CatFields'', CatFields)] opts) = ()"
              "new_typesUsed (pet_context [(''CatFields'', CatFields)] opts) = []" for opts
    by (simp_all add: pet_context_def)
  show ?thesis
    unfolding compileToLegacyIR_def Let_def c ops frs rest
    by (simp add: GetPet_compile CatFields_compile pet_legacy_def)
qed

lemma pet_GetPet: "map_of (operations (pet_legacy opts)) ''GetPet'' = Some GetPet_compiled"
  by (simp add: pet_legacy_def)

lemma Bird_distinct: "Dog \<noteq> Bird" "Cat \<noteq> Bird" "Bird \<noteq> Dog" "Bird \<noteq> Cat"
  by (simp_all add: Dog_def Cat_def Bird_def)

lemma animal_typeCase:
  "typeCaseOf (pet_imports frags) (pet_context frags opts) animal_selectionSet =
     TypeCase (Record [Dog, Cat, Bird] [(''name'', leaf ''name'')])
       [Record [Dog, Cat] [(''legs'', leaf ''legs'')], Record [Bird] []]"
  by (simp add: typeCaseOf_def pet_imports_def direct_typeCase_def animal_selectionSet_def
        walker_condition_def bird_condition_def leaf_def)

lemma animal_possibleTypes: "possibleTypes animal_selectionSet = [Dog, Cat, Bird]"
  by (simp add: animal_selectionSet_def)

lemma animal_occurrences:
  "spreadOccurrences animal_selectionSet =
     [([[Dog, Cat]], FragmentSpread ''LegFields''), ([[Bird]], FragmentSpread ''BirdFields'')]"
  by (simp add: animal_selectionSet_def walker_condition_def bird_condition_def)

lemma animal_spreads:
  "collectFragmentSpreads animal_selectionSet [Dog, Cat, Bird] = []"
  "collectFragmentSpreads animal_selectionSet [Dog, Cat] = [FragmentSpread ''LegFields'']"
  by (simp_all add: collect_occurrences(1) animal_occurrences in_view_def Dog_Cat Bird_distinct)

lemma animal_lowering:
  "transformSelectionSetToLegacyIR (pet_imports frags) (Suc 0) (pet_context frags opts)
     animal_selectionSet = Inr animal_lowered"
  by (simp add: Let_def animal_typeCase animal_possibleTypes animal_spreads record_fields_def
        keepsRecord_def every_included_def fieldMap_size_def animal_lowered_def Dog_Cat
        Bird_distinct walker_fragment_def leaf_def lowered_leaf_def or_else_def)

lemma animal_well_nested:
  "well_nested (pet_imports []) (Suc 0) (pet_context [] default_options) animal_selectionSet"
  using animal_lowering [of "[]" default_options] lowering_returns_iff by blast

lemma length_typeCase:
  "typeCaseOf (pet_imports frags) (pet_context frags opts) length_selectionSet =
     TypeCase (Record [length_type, Dog] [(''name'', leaf ''name'')]) [length_record]"
  by (simp add: typeCaseOf_def pet_imports_def direct_typeCase_def length_selectionSet_def
        length_record_def leaf_def)

lemma length_distinct: "length_type \<noteq> Dog" "Dog \<noteq> length_type" "name length_type = ''length''"
  by (simp_all add: length_type_def Dog_def)

lemma length_kept: "keepsRecord length_selectionSet length_record"
  by (simp add: keepsRecord_def every_included_def fieldMap_size_def length_selectionSet_def
        length_record_def length_distinct)

lemma length_flatMap:
  "flatMapRecords (pet_imports frags) depth (pet_context frags opts) length_selectionSet
     [length_record] = Inr [length_fragment]"
  by (simp add: Let_def length_record_def length_fragment_def record_fields_def leaf_def
        lowered_leaf_def or_else_def length_selectionSet_def every_included_def length_distinct)

lemma length_lowering:
  "transformSelectionSetToLegacyIR (pet_imports frags) (Suc depth) (pet_context frags opts)
     length_selectionSet = Inl RangeError"
proof -
  have fields: "transformFieldsToLegacyIR (pet_imports frags) depth (pet_context frags opts)
      [leaf ''name''] = Inr [lowered_leaf ''name'']"
    by (simp add: leaf_def lowered_leaf_def or_else_def)
  have assign: "assignByTypeName [length_fragment] [] None = Inl RangeError"
    by (simp add: length_fragment_def length_distinct)
  show ?thesis
    unfolding transformSelectionSetToLegacyIR.simps Let_def length_typeCase
    by (simp add: record_fields_def fields length_kept length_flatMap assign
          del: transformFieldsToLegacyIR.simps flatMapRecords.simps assignByTypeName.simps)
qed




lemma operationId_digest_result:
  assumes "compileToLegacyIR env depth schema' document options' = Inr legacy"
      and "map_of (operations legacy) name' = Some compiled"
      and "compileToLegacyIR env2 depth2 schema2 document2 options2 = Inr legacy2"
      and "map_of (operations legacy2) name2 = Some compiled2"
  shows "(\<exists>text'. sourceWithFragments compiled = Some text'
            \<and> operationId compiled = Some (sha256_hex text')
            \<and> length (sha256_hex text') = 64
            \<and> set (sha256_hex text') \<subseteq> set ''0123456789abcdef'')
         \<and> (sourceWithFragments compiled2 = sourceWithFragments compiled
              \<longrightarrow> operationId compiled2 = operationId compiled)"
proof -
  have digest: "\<exists>text'. sourceWithFragments c = Some text' \<and> operationId c = Some (sha256_hex text')"
    if "compileToLegacyIR e d s doc opt = Inr l" and "map_of (operations l) n = Some c"
    for e :: "('x, 'y) Imports" and d s doc opt l n c
  proof -
    from compiled_operation_origin [OF that] obtain operation where
      "compileOperation e d (compileToIR e s doc (effective_options opt)) n operation = Inr c"
      by blast
    then show ?thesis
      by (rule compileOperation_Inr) simp
  qed
  from digest [OF assms(1,2)] obtain text1 where
    t1: "sourceWithFragments compiled = Some text1" "operationId compiled = Some (sha256_hex text1)"
    by blast
  from digest [OF assms(3,4)] obtain text2 where
    t2: "sourceWithFragments compiled2 = Some text2" "operationId compiled2 = Some (sha256_hex text2)"
    by blast
  have "\<exists>text'. sourceWithFragments compiled = Some text'
            \<and> operationId compiled = Some (sha256_hex text')
            \<and> length (sha256_hex text') = 64
            \<and> set (sha256_hex text') \<subseteq> set ''0123456789abcdef''"
    using t1 sha256_hex_format [of text1] by (intro exI [of _ text1] conjI) simp_all
  moreover have "sourceWithFragments compiled2 = sourceWithFragments compiled
              \<longrightarrow> operationId compiled2 = operationId compiled"
    using t1 t2 by simp
  ultimately show ?thesis by (rule conjI)
qed

lemma sourceWithFragments_result:
  assumes "compileToLegacyIR env depth schema' document options' = Inr legacy"
      and "map_of (operations legacy) name' = Some compiled"
  shows "\<exists>operation sources.
           (name', operation)
             \<in> set (new_operations (compileToIR env schema' document (effective_options options')))
           \<and> list_all2 (\<lambda>referenced source'.
                  \<exists>fragment.
                    map_of (new_fragments
                      (compileToIR env schema' document (effective_options options')))
                      referenced = Some fragment
                    \<and> source' = fragment_source fragment)
                (collectFragmentsReferenced env
                   (compileToIR env schema' document (effective_options options'))
                   (operation_selectionSet operation))
                sources
           \<and> sourceWithFragments compiled =
               Some (operation_source operation
                     @ concat (map (\<lambda>piece. newline @ piece) sources))"
proof -
  let ?ctx = "compileToIR env schema' document (effective_options options')"
  from compiled_operation_origin [OF assms] obtain operation where
    mem: "(name', operation) \<in> set (new_operations ?ctx)" and
    c: "compileOperation env depth ?ctx name' operation = Inr compiled"
    by blast
  from c obtain sources lowered where
    s: "fragmentSources (new_fragments ?ctx)
          (collectFragmentsReferenced env ?ctx (operation_selectionSet operation)) = Inr sources" and
    t: "sourceWithFragments compiled = Some (join newline (operation_source operation # sources))"
    by (rule compileOperation_Inr) simp
  from t have "sourceWithFragments compiled =
               Some (operation_source operation
                     @ concat (map (\<lambda>piece. newline @ piece) sources))"
    by (simp only: join_pieces)
  with mem fragmentSources_Inr [OF s] show ?thesis
    by (intro exI [of _ operation] exI [of _ sources] conjI)
qed

lemma operationId_attached_result:
  assumes "compileToLegacyIR env depth schema' document options' = Inr legacy"
      and "map_of (operations legacy) name' = Some compiled"
  shows "operationId compiled \<noteq> None
         \<and> operationId compiled = map_option sha256_hex (sourceWithFragments compiled)
         \<and> options legacy = effective_options options'"
proof -
  from compiled_operation_origin [OF assms] obtain operation where
    "compileOperation env depth (compileToIR env schema' document (effective_options options'))
       name' operation = Inr compiled"
    by blast
  then have "operationId compiled \<noteq> None
         \<and> operationId compiled = map_option sha256_hex (sourceWithFragments compiled)"
    by (rule compileOperation_Inr) simp
  moreover from assms(1) have "options legacy = effective_options options'"
    by (rule compileToLegacyIR_Inr) simp
  ultimately show ?thesis by blast
qed

lemma compilable_iff:
  "compilable env depth schema' document options' \<longleftrightarrow>
   (\<exists>legacy. compileToLegacyIR env depth schema' document options' = Inr legacy)"
  unfolding compileToLegacyIR_returns_iff compilable_def Let_def ..

lemma legacy_of_compilable:
  assumes "compilable env depth schema' document options'"
  obtains legacy where "compileToLegacyIR env depth schema' document options' = Inr legacy"
  using assms unfolding compilable_iff by blast

lemma pet_compilable:
  "compilable (pet_imports [(''CatFields'', CatFields)]) (Suc (Suc 0)) () () options'"
  unfolding compilable_iff using pet_compile by blast

section \<open>The claims\<close>

text \<open>
  C1. For every selection set and every target list of possible types, the classifier
  returns, for the direct selections from left to right and with nothing removed: a
  fragment spread itself; for a type condition, what the classifier returns on its
  selection set when every target type is among the condition's possible types, and
  nothing otherwise; for a boolean condition, what the classifier returns on its
  selection set, whatever the target; and nothing for a field.
\<close>

theorem collectFragmentSpreads_classifies:
  "collectFragmentSpreads selectionSet types =
     concat (map (\<lambda>selection.
       case selection of
         FragmentSpread_kind spread \<Rightarrow> [spread]
       | TypeCondition_kind sub \<Rightarrow>
           if set types \<subseteq> set (possibleTypes sub) then collectFragmentSpreads sub types else []
       | BooleanCondition_kind sub \<Rightarrow> collectFragmentSpreads sub types
       | Field_kind field \<Rightarrow> []) (selections selectionSet))"
proof -
  have "visible_at types = (\<lambda>selection.
       case selection of
         FragmentSpread_kind spread \<Rightarrow> [spread]
       | TypeCondition_kind sub \<Rightarrow>
           if set types \<subseteq> set (possibleTypes sub) then collectFragmentSpreads sub types else []
       | BooleanCondition_kind sub \<Rightarrow> collectFragmentSpreads sub types
       | Field_kind field \<Rightarrow> [])"
    by (rule ext) (simp add: visible_at_def)
  then show ?thesis
    using collectFragmentSpreads_visible [of selectionSet types] by simp
qed

text \<open>
  C2, amended. Let the lowering of a selection set return: the selection sets of the fields
  that its type case returns are nested within the depth, and no record that is not
  skipped, at any level of that nesting, has a possible type named \<^verbatim>\<open>length\<close>. Let a
  fragment spread occur in the selection set nested, at any depth through type conditions
  and boolean conditions, in a type condition whose possible types are a strict subset of
  the possible types of the selection set. Then that occurrence adds nothing to the
  \<^verbatim>\<open>fragmentSpreads\<close> of the lowered selection set: they are, in order and with
  repetitions, the names of the other occurrences that are in view of the possible types
  of the selection set (the name of the spread is among them only when the same fragment
  is also spread at such a position). And for every extra record that has a field and
  whose possible types are possible types of every type condition the occurrence is
  nested in, the inline fragments emitted for the record, one for each of its possible
  types, hold the name of the spread in their \<^verbatim>\<open>fragmentSpreads\<close>.
\<close>

theorem narrowed_spread_visibility:
  assumes nested: "well_nested env depth ctx selectionSet"
      and occ: "spreadOccurrences selectionSet = before @ (conditions, spread) # after"
      and narrower: "narrower \<in> set conditions"
      and strict: "set narrower \<subset> set (possibleTypes selectionSet)"
  shows "\<exists>lowered.
     transformSelectionSetToLegacyIR env depth ctx selectionSet = Inr lowered
     \<and> lowered_fragmentSpreads lowered =
           map (\<lambda>occurrence. fragmentName (snd occurrence))
             (filter (in_view (possibleTypes selectionSet)) (before @ after))
     \<and> (\<forall>record \<in> set (records (typeCaseOf env ctx selectionSet)).
               record_fields record \<noteq> []
               \<and> in_view (record_possibleTypes record) (conditions, spread) \<longrightarrow>
               (\<exists>fields'.
                  transformFieldsToLegacyIR env (depth - 1) ctx (record_fields record) = Inr fields'
                  \<and> (\<forall>possibleType \<in> set (record_possibleTypes record).
                        CompiledInlineFragment possibleType [possibleType] fields'
                          (map fragmentName
                             (collectFragmentSpreads selectionSet (record_possibleTypes record)))
                        \<in> set (elems (lowered_inlineFragments lowered)))
                  \<and> fragmentName spread
                      \<in> set (map fragmentName
                          (collectFragmentSpreads selectionSet (record_possibleTypes record)))))"
proof -
  from nested obtain lowered where
    run: "transformSelectionSetToLegacyIR env depth ctx selectionSet = Inr lowered"
    by (rule lowered_of_well_nested)
  from nested_spread_result [OF run occ narrower strict] run show ?thesis
    by (intro exI [of _ lowered] conjI) simp_all
qed

theorem narrowed_spread_visibility_witness:
  "well_nested (pet_imports []) (Suc 0) (pet_context [] default_options) animal_selectionSet
   \<and> spreadOccurrences animal_selectionSet =
         [] @ ([[Dog, Cat]], FragmentSpread ''LegFields'')
            # [([[Bird]], FragmentSpread ''BirdFields'')]
   \<and> [Dog, Cat] \<in> set [[Dog, Cat]]
   \<and> set [Dog, Cat] \<subset> set (possibleTypes animal_selectionSet)
   \<and> transformSelectionSetToLegacyIR (pet_imports []) (Suc 0) (pet_context [] default_options)
       animal_selectionSet = Inr animal_lowered
   \<and> lowered_fragmentSpreads animal_lowered = []
   \<and> elems (lowered_inlineFragments animal_lowered) = [walker_fragment Dog, walker_fragment Cat]
   \<and> inline_fragmentSpreads (walker_fragment Dog) = [''LegFields'']
   \<and> inline_fragmentSpreads (walker_fragment Cat) = [''LegFields'']"
proof -
  have occ: "spreadOccurrences animal_selectionSet =
         [] @ ([[Dog, Cat]], FragmentSpread ''LegFields'')
            # [([[Bird]], FragmentSpread ''BirdFields'')]"
    by (simp add: animal_occurrences)
  have narrower: "[Dog, Cat] \<in> set [[Dog, Cat]]"
    by simp
  have strict: "set [Dog, Cat] \<subset> set (possibleTypes animal_selectionSet)"
    by (simp add: animal_possibleTypes psubset_eq Dog_Cat(1,2) Bird_distinct
          insert_eq_iff)
  have a: "lowered_fragmentSpreads animal_lowered = []"
    by (simp add: animal_lowered_def)
  have b: "elems (lowered_inlineFragments animal_lowered) = [walker_fragment Dog, walker_fragment Cat]"
    by (simp add: animal_lowered_def)
  have c: "inline_fragmentSpreads (walker_fragment Dog) = [''LegFields'']"
          "inline_fragmentSpreads (walker_fragment Cat) = [''LegFields'']"
    by (simp_all add: walker_fragment_def)
  show ?thesis
    apply (insert narrowed_spread_visibility [OF animal_well_nested occ narrower strict])
    apply (intro conjI animal_well_nested animal_lowering occ narrower strict a b c)
    done
qed

theorem narrowed_spread_visibility_counterexample:
  "set (possibleTypes cat_condition) \<subset> set (possibleTypes twice_selectionSet)
   \<and> selections twice_selectionSet =
         [FragmentSpread_kind (FragmentSpread ''CatFields''), TypeCondition_kind cat_condition]
   \<and> FragmentSpread_kind (FragmentSpread ''CatFields'') \<in> set (selections cat_condition)
   \<and> transformSelectionSetToLegacyIR (pet_imports []) (Suc 0) (pet_context [] default_options)
         twice_selectionSet =
       Inr \<lparr> lowered_fields = [], lowered_fragmentSpreads = [''CatFields''],
             lowered_inlineFragments =
               InlineFragmentArray
                 [CompiledInlineFragment Cat [Cat] [lowered_leaf ''lives'']
                    [''CatFields'', ''CatFields'']]
                 [(''Cat'',
                   CompiledInlineFragment Cat [Cat] [lowered_leaf ''lives'']
                     [''CatFields'', ''CatFields''])]
                 None \<rparr>"
proof -
  have "set (possibleTypes cat_condition) \<subset> set (possibleTypes twice_selectionSet)"
    by (simp add: cat_condition_def twice_selectionSet_def psubset_eq Dog_Cat(1,2)
          doubleton_eq_iff)
  moreover have "selections twice_selectionSet =
         [FragmentSpread_kind (FragmentSpread ''CatFields''), TypeCondition_kind cat_condition]"
    by (simp add: twice_selectionSet_def)
  moreover have "FragmentSpread_kind (FragmentSpread ''CatFields'') \<in> set (selections cat_condition)"
    by (simp add: cat_condition_def)
  ultimately show ?thesis
    using twice_lowering by simp
qed

text \<open>
  C3, at a type named \<^verbatim>\<open>length\<close>. For \<^verbatim>\<open>{ name ... on length { lives } }\<close> on a union of
  \<^verbatim>\<open>length\<close> and \<^verbatim>\<open>Dog\<close>, the one extra record does not cover the possible types of the
  selection set and has one field, and at every depth the lowering throws
  \<^verbatim>\<open>RangeError\<close>: the record contributes no inline fragment.
\<close>

theorem length_record_contributes_nothing:
  "records (typeCaseOf (pet_imports []) (pet_context [] default_options) length_selectionSet)
     = [length_record]
   \<and> \<not> set (possibleTypes length_selectionSet) \<subseteq> set (record_possibleTypes length_record)
   \<and> fieldMap_size length_record = 1
   \<and> transformSelectionSetToLegacyIR (pet_imports []) (Suc depth)
         (pet_context [] default_options) length_selectionSet = Inl RangeError"
proof -
  have "\<not> set (possibleTypes length_selectionSet) \<subseteq> set (record_possibleTypes length_record)"
    by (simp add: length_selectionSet_def length_record_def length_distinct)
  moreover have "fieldMap_size length_record = 1"
    by (simp add: fieldMap_size_def length_record_def)
  ultimately show ?thesis
    by (simp add: length_typeCase length_lowering
          del: transformSelectionSetToLegacyIR.simps)
qed

text \<open>
  C4, at a type named \<^verbatim>\<open>length\<close>. For the same selection set the extra record passes the
  filter of lines 162-168 and the callback of lines 169-184 builds its one inline fragment,
  for the type \<^verbatim>\<open>length\<close>; the assignment of line 187 then throws \<^verbatim>\<open>RangeError\<close>, so the
  lowering returns no value and the inline fragment is not emitted.
\<close>

theorem length_fan_out_throws:
  "keepsRecord length_selectionSet length_record
   \<and> flatMapRecords (pet_imports []) depth (pet_context [] default_options) length_selectionSet
       (filter (keepsRecord length_selectionSet)
          (records (typeCaseOf (pet_imports []) (pet_context [] default_options)
             length_selectionSet)))
     = Inr [CompiledInlineFragment length_type [length_type] [lowered_leaf ''lives''] []]
   \<and> assignByTypeName
       [CompiledInlineFragment length_type [length_type] [lowered_leaf ''lives''] []] [] None
     = Inl RangeError
   \<and> (\<forall>lowered. transformSelectionSetToLegacyIR (pet_imports []) (Suc depth)
         (pet_context [] default_options) length_selectionSet \<noteq> Inr lowered)"
proof -
  have "flatMapRecords (pet_imports []) depth (pet_context [] default_options) length_selectionSet
       (filter (keepsRecord length_selectionSet)
          (records (typeCaseOf (pet_imports []) (pet_context [] default_options)
             length_selectionSet)))
     = Inr [CompiledInlineFragment length_type [length_type] [lowered_leaf ''lives''] []]"
    using length_flatMap [of "[]" depth default_options]
    by (simp add: length_typeCase length_kept length_fragment_def
          del: flatMapRecords.simps)
  moreover have "assignByTypeName
       [CompiledInlineFragment length_type [length_type] [lowered_leaf ''lives''] []] [] None
     = Inl RangeError"
    by (simp add: length_distinct)
  ultimately show ?thesis
    by (simp add: length_kept length_lowering del: flatMapRecords.simps assignByTypeName.simps
          transformSelectionSetToLegacyIR.simps)
qed

text \<open>
  C5. A run that returns gives every operation of its context an \<^verbatim>\<open>operationId\<close> that is
  the SHA-256 digest of the bytes of the operation's \<^verbatim>\<open>sourceWithFragments\<close>, written as
  64 lowercase hexadecimal characters; so two compiled operations, of one run or of two,
  with the same \<^verbatim>\<open>sourceWithFragments\<close> have the same \<^verbatim>\<open>operationId\<close>.
\<close>

theorem operationId_digest:
  assumes "compilable env depth schema' document options'"
      and "compilable env2 depth2 schema2 document2 options2"
  shows "\<exists>legacy legacy2.
     compileToLegacyIR env depth schema' document options' = Inr legacy
     \<and> compileToLegacyIR env2 depth2 schema2 document2 options2 = Inr legacy2
     \<and> (\<forall>name' compiled.
           map_of (operations legacy) name' = Some compiled \<longrightarrow>
           (\<exists>text'. sourceWithFragments compiled = Some text'
              \<and> operationId compiled = Some (sha256_hex text')
              \<and> length (sha256_hex text') = 64
              \<and> set (sha256_hex text') \<subseteq> set ''0123456789abcdef'')
           \<and> (\<forall>name2 compiled2.
                 map_of (operations legacy2) name2 = Some compiled2
                 \<and> sourceWithFragments compiled2 = sourceWithFragments compiled \<longrightarrow>
                 operationId compiled2 = operationId compiled))"
proof -
  from assms(1) obtain legacy where
    run: "compileToLegacyIR env depth schema' document options' = Inr legacy"
    by (rule legacy_of_compilable)
  from assms(2) obtain legacy2 where
    run2: "compileToLegacyIR env2 depth2 schema2 document2 options2 = Inr legacy2"
    by (rule legacy_of_compilable)
  have "(\<exists>text'. sourceWithFragments compiled = Some text'
              \<and> operationId compiled = Some (sha256_hex text')
              \<and> length (sha256_hex text') = 64
              \<and> set (sha256_hex text') \<subseteq> set ''0123456789abcdef'')
           \<and> (\<forall>name2 compiled2.
                 map_of (operations legacy2) name2 = Some compiled2
                 \<and> sourceWithFragments compiled2 = sourceWithFragments compiled \<longrightarrow>
                 operationId compiled2 = operationId compiled)"
    if c: "map_of (operations legacy) name' = Some compiled" for name' compiled
  proof (intro conjI allI impI)
    show "\<exists>text'. sourceWithFragments compiled = Some text'
              \<and> operationId compiled = Some (sha256_hex text')
              \<and> length (sha256_hex text') = 64
              \<and> set (sha256_hex text') \<subseteq> set ''0123456789abcdef''"
      using operationId_digest_result [OF run c run c] by (rule conjunct1)
  next
    fix name2 compiled2
    assume "map_of (operations legacy2) name2 = Some compiled2
                 \<and> sourceWithFragments compiled2 = sourceWithFragments compiled"
    then have c2: "map_of (operations legacy2) name2 = Some compiled2"
      and same: "sourceWithFragments compiled2 = sourceWithFragments compiled"
      by simp_all
    from operationId_digest_result [OF run c run2 c2] same
    show "operationId compiled2 = operationId compiled"
      by blast
  qed
  with run run2 show ?thesis by blast
qed

theorem operationId_digest_witness:
  "compilable (pet_imports [(''CatFields'', CatFields)]) (Suc (Suc 0)) () () None
   \<and> compilable (pet_imports [(''CatFields'', CatFields)]) (Suc (Suc 0)) () () (Some off_options)
   \<and> compileToLegacyIR (pet_imports [(''CatFields'', CatFields)]) (Suc (Suc 0)) () () None =
       Inr (pet_legacy default_options)
   \<and> compileToLegacyIR (pet_imports [(''CatFields'', CatFields)]) (Suc (Suc 0)) () ()
         (Some off_options) = Inr (pet_legacy off_options)
   \<and> map_of (operations (pet_legacy default_options)) ''GetPet'' = Some GetPet_compiled
   \<and> sourceWithFragments GetPet_compiled = Some GetPet_text
   \<and> operationId GetPet_compiled = Some (sha256_hex GetPet_text)"
proof -
  have run: "compileToLegacyIR (pet_imports [(''CatFields'', CatFields)]) (Suc (Suc 0)) () () None =
     Inr (pet_legacy default_options)"
    using pet_compile [of None] by (simp add: effective_options_def)
  have run2: "compileToLegacyIR (pet_imports [(''CatFields'', CatFields)]) (Suc (Suc 0)) () ()
         (Some off_options) = Inr (pet_legacy off_options)"
    using pet_compile [of "Some off_options"] by (simp add: effective_options_def)
  have text': "sourceWithFragments GetPet_compiled = Some GetPet_text"
    and id': "operationId GetPet_compiled = Some (sha256_hex GetPet_text)"
    by (simp_all add: GetPet_compiled_def)
  show ?thesis
    apply (insert operationId_digest [OF pet_compilable [of None]
                    pet_compilable [of "Some off_options"]])
    apply (intro conjI pet_compilable run run2 pet_GetPet text' id')
    done
qed

text \<open>
  C6. A run that returns gives every operation of its context a \<^verbatim>\<open>sourceWithFragments\<close>
  that is the source of the upstream operation of that name, followed, for each fragment
  name that the closure returned for the operation's selection set and in that order, by
  one newline character and the source of the fragment of that name.
\<close>

theorem sourceWithFragments_joined:
  assumes "compilable env depth schema' document options'"
  shows "\<exists>legacy.
     compileToLegacyIR env depth schema' document options' = Inr legacy
     \<and> (\<forall>name' compiled.
           map_of (operations legacy) name' = Some compiled \<longrightarrow>
           (\<exists>operation sources.
              (name', operation)
                \<in> set (new_operations
                     (compileToIR env schema' document (effective_options options')))
              \<and> list_all2 (\<lambda>referenced source'.
                     \<exists>fragment.
                       map_of (new_fragments
                         (compileToIR env schema' document (effective_options options')))
                         referenced = Some fragment
                       \<and> source' = fragment_source fragment)
                   (collectFragmentsReferenced env
                      (compileToIR env schema' document (effective_options options'))
                      (operation_selectionSet operation))
                   sources
              \<and> sourceWithFragments compiled =
                  Some (operation_source operation
                        @ concat (map (\<lambda>piece. newline @ piece) sources))))"
proof -
  from assms obtain legacy where
    run: "compileToLegacyIR env depth schema' document options' = Inr legacy"
    by (rule legacy_of_compilable)
  from sourceWithFragments_result [OF run] run show ?thesis
    by (intro exI [of _ legacy] conjI allI impI)
qed

theorem sourceWithFragments_joined_witness:
  "compilable (pet_imports [(''CatFields'', CatFields)]) (Suc (Suc 0)) () () None
   \<and> compileToLegacyIR (pet_imports [(''CatFields'', CatFields)]) (Suc (Suc 0)) () () None =
       Inr (pet_legacy default_options)
   \<and> map_of (operations (pet_legacy default_options)) ''GetPet'' = Some GetPet_compiled
   \<and> sourceWithFragments GetPet_compiled =
       Some (operation_source GetPet @ newline @ fragment_source CatFields)"
proof -
  have run: "compileToLegacyIR (pet_imports [(''CatFields'', CatFields)]) (Suc (Suc 0)) () () None =
     Inr (pet_legacy default_options)"
    using pet_compile [of None] by (simp add: effective_options_def)
  have text': "sourceWithFragments GetPet_compiled =
       Some (operation_source GetPet @ newline @ fragment_source CatFields)"
    by (simp add: GetPet_compiled_def GetPet_text_def GetPet_def CatFields_def)
  show ?thesis
    apply (insert sourceWithFragments_joined [OF pet_compilable [of None]])
    apply (intro conjI pet_compilable run pet_GetPet text')
    done
qed

text \<open>
  C7, amended. Whatever the options are, and so whether \<^verbatim>\<open>generateOperationIds\<close> is set,
  unset or absent, a run that returns gives every operation of its context an
  \<^verbatim>\<open>operationId\<close>, the digest of its \<^verbatim>\<open>sourceWithFragments\<close>; the options, with
  \<^verbatim>\<open>generateOperationIds\<close> among them, are only copied into the compiled context.
\<close>

theorem operationId_always_attached:
  assumes "compilable env depth schema' document options'"
  shows "\<exists>legacy.
     compileToLegacyIR env depth schema' document options' = Inr legacy
     \<and> options legacy = effective_options options'
     \<and> (\<forall>name' compiled.
           map_of (operations legacy) name' = Some compiled \<longrightarrow>
           operationId compiled \<noteq> None
           \<and> operationId compiled = map_option sha256_hex (sourceWithFragments compiled))"
proof -
  from assms obtain legacy where
    run: "compileToLegacyIR env depth schema' document options' = Inr legacy"
    by (rule legacy_of_compilable)
  have "options legacy = effective_options options'"
    using run by (rule compileToLegacyIR_Inr) simp
  moreover have "operationId compiled \<noteq> None
           \<and> operationId compiled = map_option sha256_hex (sourceWithFragments compiled)"
    if "map_of (operations legacy) name' = Some compiled" for name' compiled
    using operationId_attached_result [OF run that] by blast
  ultimately show ?thesis using run by blast
qed

theorem operationId_always_attached_witness:
  "compilable (pet_imports [(''CatFields'', CatFields)]) (Suc (Suc 0)) () () (Some off_options)
   \<and> generateOperationIds off_options = Some False
   \<and> compileToLegacyIR (pet_imports [(''CatFields'', CatFields)]) (Suc (Suc 0)) () ()
         (Some off_options) = Inr (pet_legacy off_options)
   \<and> map_of (operations (pet_legacy off_options)) ''GetPet'' = Some GetPet_compiled
   \<and> operationId GetPet_compiled = Some (sha256_hex GetPet_text)"
proof -
  have run: "compileToLegacyIR (pet_imports [(''CatFields'', CatFields)]) (Suc (Suc 0)) () ()
         (Some off_options) = Inr (pet_legacy off_options)"
    using pet_compile [of "Some off_options"] by (simp add: effective_options_def)
  have off: "generateOperationIds off_options = Some False"
    by (simp add: off_options_def default_options_def)
  have id': "operationId GetPet_compiled = Some (sha256_hex GetPet_text)"
    by (simp add: GetPet_compiled_def)
  show ?thesis
    apply (insert operationId_always_attached [OF pet_compilable [of "Some off_options"]])
    apply (intro conjI pet_compilable run pet_GetPet off id')
    done
qed

theorem operationId_gated_counterexample:
  "generateOperationIds off_options = Some False
   \<and> compileToLegacyIR (pet_imports [(''CatFields'', CatFields)]) (Suc (Suc 0)) () ()
         (Some off_options) = Inr (pet_legacy off_options)
   \<and> map_of (operations (pet_legacy off_options)) ''GetPet'' = Some GetPet_compiled
   \<and> operationId GetPet_compiled = Some (sha256_hex GetPet_text)
   \<and> length (sha256_hex GetPet_text) = 64"
proof -
  have run: "compileToLegacyIR (pet_imports [(''CatFields'', CatFields)]) (Suc (Suc 0)) () ()
         (Some off_options) = Inr (pet_legacy off_options)"
    using pet_compile [of "Some off_options"] by (simp add: effective_options_def)
  have off: "generateOperationIds off_options = Some False"
    by (simp add: off_options_def default_options_def)
  have id': "operationId GetPet_compiled = Some (sha256_hex GetPet_text)"
    by (simp add: GetPet_compiled_def)
  have len: "length (sha256_hex GetPet_text) = 64"
    using sha256_hex_format by blast
  show ?thesis
    by (intro conjI run pet_GetPet off id' len)
qed


end
